theory Spec2Isabelle
  imports Main "HOL-Library.Word" "HOL-Library.Sublist"
begin

section \<open>Failing-policies webhook: data model\<close>

text \<open>
  The Go package \<^verbatim>\<open>webhooks\<close> (file \<^verbatim>\<open>src/unnamed/part_001\<close>) is embedded
  function by function. Go's \<^verbatim>\<open>uint\<close> and \<^verbatim>\<open>int\<close> are taken at their 64-bit
  width (\<open>64 word\<close>, read signed by \<open>sint\<close> where the source converts to \<^verbatim>\<open>int\<close>).
  Strings are byte lists. The types \<^verbatim>\<open>time.Time\<close> and \<^verbatim>\<open>fleet.Policy\<close> are not
  declared in the package; they are the type parameters \<open>'t\<close> and \<open>'p\<close>.
\<close>

record PolicySetHost =
  ID :: "64 word"
  Hostname :: string

record FailingHost =
  fh_ID :: "64 word"
  fh_Hostname :: string
  fh_URL :: string

record ('t, 'p) FailingPoliciesPayload =
  Timestamp :: 't
  Policy :: 'p
  FailingHosts :: "FailingHost list"

record FailingPoliciesWebhookSettings =
  Enable :: bool
  PolicyIDs :: "64 word list"
  DestinationURL :: string

record WebhookSettings =
  FailingPoliciesWebhook :: FailingPoliciesWebhookSettings

record ServerSettings =
  ServerURL :: string

record AppConfig =
  WebhookSettings :: WebhookSettings
  ServerSettings :: ServerSettings

section \<open>Standard-library functions the package calls\<close>

subsection \<open>\<^verbatim>\<open>strconv.Itoa\<close>\<close>

definition digit_char :: "nat \<Rightarrow> char" where
  "digit_char d = ''0123456789'' ! d"

fun uint_digits :: "nat \<Rightarrow> string" where
  "uint_digits n =
     (if n < 10 then [digit_char n] else uint_digits (n div 10) @ [digit_char (n mod 10)])"

declare uint_digits.simps [simp del]

text \<open>Base-10 text of a signed integer, with a leading minus sign below zero.\<close>

definition Itoa :: "int \<Rightarrow> string" where
  "Itoa i = (if i < 0 then CHR ''-'' # uint_digits (nat (- i)) else uint_digits (nat i))"

subsection \<open>\<^verbatim>\<open>path.Clean\<close> and \<^verbatim>\<open>path.Join\<close>\<close>

text \<open>
  \<^verbatim>\<open>path.Clean\<close> of Go's standard library, with its output buffer \<^verbatim>\<open>out\<close> as the
  list of the bytes written so far (\<^verbatim>\<open>out.w\<close> is its length) and the read position
  \<^verbatim>\<open>r\<close> as the unread rest of the path. The backtracking of a \<^verbatim>\<open>..\<close> element
  is \<^verbatim>\<open>out.w--; for out.w > dotdot && out.index(out.w) != '/' { out.w-- }\<close>.
\<close>

function backtrack :: "string \<Rightarrow> nat \<Rightarrow> nat \<Rightarrow> nat" where
  "backtrack buf dotdot w =
     (if w > dotdot \<and> buf ! w \<noteq> CHR ''/'' then backtrack buf dotdot (w - 1) else w)"
  by pat_completeness auto
termination
  by (relation "measure (\<lambda>(buf, dotdot, w). w)") auto

declare backtrack.simps [simp del]

function clean_loop :: "bool \<Rightarrow> string \<Rightarrow> string \<Rightarrow> nat \<Rightarrow> string" where
  "clean_loop rooted [] out dotdot = out"
| "clean_loop rooted (c # cs) out dotdot =
     (if c = CHR ''/'' then clean_loop rooted cs out dotdot
      else if c = CHR ''.'' \<and> (cs = [] \<or> hd cs = CHR ''/'') then clean_loop rooted cs out dotdot
      else if c = CHR ''.'' \<and> hd cs = CHR ''.'' \<and> (tl cs = [] \<or> hd (tl cs) = CHR ''/'') then
        (if length out > dotdot then
           clean_loop rooted (tl cs) (take (backtrack out dotdot (length out - 1)) out) dotdot
         else if \<not> rooted then
           clean_loop rooted (tl cs) ((if length out > 0 then out @ ''/'' else out) @ ''..'')
             (length ((if length out > 0 then out @ ''/'' else out) @ ''..''))
         else clean_loop rooted (tl cs) out dotdot)
      else
        clean_loop rooted (dropWhile (\<lambda>x. x \<noteq> CHR ''/'') cs)
          ((if (rooted \<and> length out \<noteq> 1) \<or> (\<not> rooted \<and> length out \<noteq> 0) then out @ ''/'' else out)
             @ c # takeWhile (\<lambda>x. x \<noteq> CHR ''/'') cs)
          dotdot)"
  by pat_completeness auto
termination
proof (relation "measure (\<lambda>(rooted, rest, out, dotdot). length rest)")
  show "wf (measure (\<lambda>(rooted, rest, out, dotdot). length rest))"
    by simp
qed (auto simp: less_Suc_eq_le length_dropWhile_le intro: le_trans [OF diff_le_self])

definition Clean :: "string \<Rightarrow> string" where
  "Clean path =
     (if path = [] then ''.''
      else
        (let rooted = (hd path = CHR ''/'');
             out = (if rooted then clean_loop rooted (tl path) ''/'' 1
                    else clean_loop rooted path [] 0)
         in if out = [] then ''.'' else out))"

text \<open>
  \<^verbatim>\<open>path.Join\<close>: nothing for elements that are all empty; otherwise the elements from
  the first non-empty one on, separated by slashes, and the result cleaned.
\<close>

fun join_buf :: "string \<Rightarrow> string list \<Rightarrow> string" where
  "join_buf buf [] = buf"
| "join_buf buf (e # es) =
     (if length buf > 0 \<or> e \<noteq> [] then
        join_buf ((if length buf > 0 then buf @ ''/'' else buf) @ e) es
      else join_buf buf es)"

definition Join :: "string list \<Rightarrow> string" where
  "Join elem = (if sum_list (map length elem) = 0 then [] else Clean (join_buf [] elem))"

section \<open>The payload builder\<close>

definition makeFailingHost :: "PolicySetHost \<Rightarrow> string \<Rightarrow> FailingHost" where
  "makeFailingHost host fleetServerURL =
     \<lparr> fh_ID = ID host,
       fh_Hostname = Hostname host,
       fh_URL = Join [fleetServerURL, ''hosts'', Itoa (sint (ID host))] \<rparr>"

text \<open>
  Lines 48 to 51: \<^verbatim>\<open>failingHosts := make([]FailingHost, len(hosts))\<close>, a slice of
  zero values, then the loop over the indexes of \<^verbatim>\<open>hosts\<close> that overwrites slot \<open>i\<close>.
\<close>

definition zeroFailingHost :: FailingHost where
  "zeroFailingHost = \<lparr> fh_ID = 0, fh_Hostname = [], fh_URL = [] \<rparr>"

function fillFailingHosts ::
  "nat \<Rightarrow> PolicySetHost list \<Rightarrow> string \<Rightarrow> FailingHost list \<Rightarrow> FailingHost list" where
  "fillFailingHosts i hosts serverURL failingHosts =
     (if i < length hosts then
        fillFailingHosts (Suc i) hosts serverURL
          (failingHosts[i := makeFailingHost (hosts ! i) serverURL])
      else failingHosts)"
  by pat_completeness auto
termination
  by (relation "measure (\<lambda>(i, hosts, serverURL, failingHosts). length hosts - i)") auto

declare fillFailingHosts.simps [simp del]

definition buildFailingHosts :: "PolicySetHost list \<Rightarrow> string \<Rightarrow> FailingHost list" where
  "buildFailingHosts hosts serverURL =
     fillFailingHosts 0 hosts serverURL (replicate (length hosts) zeroFailingHost)"

section \<open>Errors, collaborators and the calls made on them\<close>

text \<open>
  A Go \<^verbatim>\<open>error\<close> is \<^verbatim>\<open>sql.ErrNoRows\<close>, some other error of a collaborator, or an
  error wrapped by \<^verbatim>\<open>ctxerr.Wrapf\<close> with its format string and arguments (kept
  unrendered). \<^verbatim>\<open>errors.Is\<close> follows the chain of wrapped errors.
\<close>

datatype fmt_arg = ArgUint "64 word" | ArgString string | ArgHosts "PolicySetHost list"

datatype error = ErrNoRows | ErrOther string | Wrapf error string "fmt_arg list"

fun errors_Is :: "error \<Rightarrow> error \<Rightarrow> bool" where
  "errors_Is (Wrapf cause f args) target =
     (Wrapf cause f args = target \<or> errors_Is cause target)"
| "errors_Is err target = (err = target)"

text \<open>
  The collaborators are interfaces whose implementations live outside the package: the
  datastore (\<^verbatim>\<open>ds.Policy\<close>), the failing-policy set (\<^verbatim>\<open>ListHosts\<close>,
  \<^verbatim>\<open>RemoveHosts\<close>) and the transport (\<^verbatim>\<open>server.PostJSONWithTimeout\<close>). Each is a
  function of the state \<open>'w\<close> of everything outside the cycle, returning its answer
  and the next state; the state may change in any way during a call, which covers other
  processes writing to the shared set while the cycle waits.
\<close>

record ('w, 't, 'p) collaborators =
  ds_Policy :: "'w \<Rightarrow> 64 word \<Rightarrow> (error + 'p) \<times> 'w"
  ListHosts :: "'w \<Rightarrow> 64 word \<Rightarrow> (error + PolicySetHost list) \<times> 'w"
  PostJSONWithTimeout :: "'w \<Rightarrow> string \<Rightarrow> ('t, 'p) FailingPoliciesPayload \<Rightarrow> error option \<times> 'w"
  RemoveHosts :: "'w \<Rightarrow> 64 word \<Rightarrow> PolicySetHost list \<Rightarrow> error option \<times> 'w"

text \<open>The calls a run makes, with their arguments, in the order it makes them.\<close>

datatype ('t, 'p) call =
    CallPolicy "64 word"
  | CallListHosts "64 word"
  | CallPostJSON string "('t, 'p) FailingPoliciesPayload"
  | CallRemoveHosts "64 word" "PolicySetHost list"

section \<open>The trigger cycle\<close>

text \<open>
  The body of the \<^verbatim>\<open>for\<close> loop of lines 33 to 65, by recursion on the identifiers
  still to visit. The result is the returned error (\<open>None\<close> for \<^verbatim>\<open>nil\<close>), the state
  after the run and the calls made. The debug log line has no effect on any of them.
\<close>

fun policies_loop ::
  "('w, 't, 'p) collaborators \<Rightarrow> AppConfig \<Rightarrow> 't \<Rightarrow> 'w \<Rightarrow> 64 word list
     \<Rightarrow> error option \<times> 'w \<times> ('t, 'p) call list" where
  "policies_loop env appConfig now w [] = (None, w, [])"
| "policies_loop env appConfig now w (policyID # rest) =
     (case ds_Policy env w policyID of
        (Inl err, w1) \<Rightarrow>
          if errors_Is err ErrNoRows then
            (case policies_loop env appConfig now w1 rest of
               (r, w', calls) \<Rightarrow> (r, w', CallPolicy policyID # calls))
          else
            (Some (Wrapf err ''failing to load failing policies set %d'' [ArgUint policyID]),
             w1, [CallPolicy policyID])
      | (Inr policy, w1) \<Rightarrow>
          (case ListHosts env w1 policyID of
             (Inl err, w2) \<Rightarrow>
               (Some (Wrapf err ''listing hosts for failing policies set %d'' [ArgUint policyID]),
                w2, [CallPolicy policyID, CallListHosts policyID])
           | (Inr hosts, w2) \<Rightarrow>
               (let failingHosts =
                      buildFailingHosts hosts (ServerURL (ServerSettings appConfig));
                    payload = \<lparr> Timestamp = now, Policy = policy, FailingHosts = failingHosts \<rparr>;
                    url = DestinationURL (FailingPoliciesWebhook (WebhookSettings appConfig))
                in case PostJSONWithTimeout env w2 url payload of
                     (Some err, w3) \<Rightarrow>
                       (Some (Wrapf err (''posting to '' @ [CHR 0x27] @ ''%s'' @ [CHR 0x27])
                                [ArgString url]),
                        w3, [CallPolicy policyID, CallListHosts policyID, CallPostJSON url payload])
                   | (None, w3) \<Rightarrow>
                       (case RemoveHosts env w3 policyID hosts of
                          (Some err, w4) \<Rightarrow>
                            (Some (Wrapf err ''removing hosts %+v from failing policies set %d''
                                     [ArgHosts hosts, ArgUint policyID]),
                             w4, [CallPolicy policyID, CallListHosts policyID,
                                  CallPostJSON url payload, CallRemoveHosts policyID hosts])
                        | (None, w4) \<Rightarrow>
                            (case policies_loop env appConfig now w4 rest of
                               (r, w', calls) \<Rightarrow>
                                 (r, w', CallPolicy policyID # CallListHosts policyID
                                           # CallPostJSON url payload
                                           # CallRemoveHosts policyID hosts # calls))))))"

definition TriggerFailingPoliciesWebhook ::
  "('w, 't, 'p) collaborators \<Rightarrow> AppConfig \<Rightarrow> 't \<Rightarrow> 'w
     \<Rightarrow> error option \<times> 'w \<times> ('t, 'p) call list" where
  "TriggerFailingPoliciesWebhook env appConfig now w =
     (if \<not> Enable (FailingPoliciesWebhook (WebhookSettings appConfig)) then (None, w, [])
      else policies_loop env appConfig now w
             (PolicyIDs (FailingPoliciesWebhook (WebhookSettings appConfig))))"

section \<open>Observing a run\<close>

text \<open>
  The delivery attempts of a run are its \<^verbatim>\<open>PostJSONWithTimeout\<close> calls. Each iteration
  of the loop starts with the metadata lookup of its identifier, so the identifier an
  attempt belongs to is the one of the latest lookup before it.
\<close>

fun delivery_attempts :: "('t, 'p) call list \<Rightarrow> ('t, 'p) FailingPoliciesPayload list" where
  "delivery_attempts [] = []"
| "delivery_attempts (CallPostJSON url payload # calls) = payload # delivery_attempts calls"
| "delivery_attempts (c # calls) = delivery_attempts calls"

fun delivery_order_from :: "64 word list \<Rightarrow> ('t, 'p) call list \<Rightarrow> 64 word list" where
  "delivery_order_from cur [] = []"
| "delivery_order_from cur (CallPolicy policyID # calls) = delivery_order_from [policyID] calls"
| "delivery_order_from cur (CallPostJSON url payload # calls) = cur @ delivery_order_from cur calls"
| "delivery_order_from cur (c # calls) = delivery_order_from cur calls"

definition delivery_order :: "('t, 'p) call list \<Rightarrow> 64 word list" where
  "delivery_order calls = delivery_order_from [] calls"

text \<open>A call that carries no host: a delivery of an empty list, a removal of nothing.\<close>

fun empty_handed :: "('t, 'p) call \<Rightarrow> bool" where
  "empty_handed (CallPostJSON url payload) = (FailingHosts payload = [])"
| "empty_handed (CallRemoveHosts policyID hosts) = (hosts = [])"
| "empty_handed c = True"

section \<open>The wire shape of the payload\<close>

text \<open>
  \<^verbatim>\<open>encoding/json\<close> writes a struct as an object whose members are the exported fields
  in declaration order, each under the name of its \<^verbatim>\<open>json\<close> tag. The encodings of
  \<^verbatim>\<open>time.Time\<close> and of \<^verbatim>\<open>fleet.Policy\<close> are parameters.
\<close>

datatype json =
    JNull
  | JNumber int
  | JString string
  | JArray "json list"
  | JObject "(string \<times> json) list"

definition marshal_FailingHost :: "FailingHost \<Rightarrow> json" where
  "marshal_FailingHost h =
     JObject [(''id'', JNumber (uint (fh_ID h))),
              (''hostname'', JString (fh_Hostname h)),
              (''url'', JString (fh_URL h))]"

definition marshal_FailingPoliciesPayload ::
  "('t \<Rightarrow> json) \<Rightarrow> ('p \<Rightarrow> json) \<Rightarrow> ('t, 'p) FailingPoliciesPayload \<Rightarrow> json" where
  "marshal_FailingPoliciesPayload marshal_time marshal_policy payload =
     JObject [(''timestamp'', marshal_time (Timestamp payload)),
              (''policy'', marshal_policy (Policy payload)),
              (''hosts'', JArray (map marshal_FailingHost (FailingHosts payload)))]"

fun object_keys :: "json \<Rightarrow> string list" where
  "object_keys (JObject members) = map fst members"
| "object_keys j = []"

fun object_member :: "json \<Rightarrow> string \<Rightarrow> json option" where
  "object_member (JObject members) k = map_of members k"
| "object_member j k = None"

section \<open>Example collaborators\<close>

text \<open>
  Modelled from the spec: the implementation of the \<^verbatim>\<open>service.FailingPolicySet\<close>
  interface is not in the package. Section 4.1 of the specification: \<^verbatim>\<open>listHosts\<close>
  returns the current members of the policy's set, and \<^verbatim>\<open>removeHosts\<close> removes
  exactly the given host identifiers from it, ignoring identifiers already absent. The
  set of each policy is the list of its members.
\<close>

definition spec_removeHosts :: "PolicySetHost list \<Rightarrow> PolicySetHost list \<Rightarrow> PolicySetHost list" where
  "spec_removeHosts members hosts = filter (\<lambda>m. ID m \<notin> set (map ID hosts)) members"

type_synonym failing_sets = "64 word \<Rightarrow> PolicySetHost list"

text \<open>
  Modelled from the spec: collaborators over that set, whose implementations are not in
  the package. The policy catalog does not change (section 3: immutable during a cycle),
  the answer of the transport is a function of the request, and the set never fails and
  has no other writer while the cycle runs: \<^verbatim>\<open>listHosts\<close> is the current list of the
  policy, \<^verbatim>\<open>removeHosts\<close> the removal above.
\<close>

definition store_env ::
  "(64 word \<Rightarrow> error + 'p) \<Rightarrow> (string \<Rightarrow> ('t, 'p) FailingPoliciesPayload \<Rightarrow> error option)
     \<Rightarrow> (failing_sets, 't, 'p) collaborators" where
  "store_env catalog post =
     \<lparr> ds_Policy = (\<lambda>s policyID. (catalog policyID, s)),
       ListHosts = (\<lambda>s policyID. (Inr (s policyID), s)),
       PostJSONWithTimeout = (\<lambda>s url payload. (post url payload, s)),
       RemoveHosts = (\<lambda>s policyID hosts.
                        (None, s(policyID := spec_removeHosts (s policyID) hosts))) \<rparr>"

text \<open>Collaborators without state, each answering from a fixed script.\<close>

definition scripted_env ::
  "(64 word \<Rightarrow> error + 'p) \<Rightarrow> (64 word \<Rightarrow> error + PolicySetHost list)
     \<Rightarrow> error option \<Rightarrow> error option \<Rightarrow> (unit, 't, 'p) collaborators" where
  "scripted_env catalog hostsets postResult removeResult =
     \<lparr> ds_Policy = (\<lambda>u policyID. (catalog policyID, u)),
       ListHosts = (\<lambda>u policyID. (hostsets policyID, u)),
       PostJSONWithTimeout = (\<lambda>u url payload. (postResult, u)),
       RemoveHosts = (\<lambda>u policyID hosts. (removeResult, u)) \<rparr>"

text \<open>
  The scenario of section 8 of the specification: policy 7 exists, hosts 101 and 102 fail
  it. Policy 8 has no failing host, and every other identifier is of a deleted policy.
\<close>

definition example_config :: "bool \<Rightarrow> 64 word list \<Rightarrow> AppConfig" where
  "example_config enable ids =
     \<lparr> WebhookSettings =
         \<lparr> FailingPoliciesWebhook =
             \<lparr> Enable = enable, PolicyIDs = ids,
               DestinationURL = ''https://hooks.example.com/failing'' \<rparr> \<rparr>,
       ServerSettings = \<lparr> ServerURL = ''https://fleet.example.com'' \<rparr> \<rparr>"

definition example_catalog :: "64 word \<Rightarrow> error + string" where
  "example_catalog policyID =
     (if policyID = 7 then Inr ''Disk encryption enabled''
      else if policyID = 8 then Inr ''Firewall enabled''
      else Inl ErrNoRows)"

definition broken_catalog :: "64 word \<Rightarrow> error + string" where
  "broken_catalog policyID = Inl (ErrOther ''connection refused'')"

definition alice :: PolicySetHost where
  "alice = \<lparr> ID = 101, Hostname = ''alice-laptop'' \<rparr>"

definition bob :: PolicySetHost where
  "bob = \<lparr> ID = 102, Hostname = ''bob-laptop'' \<rparr>"

definition example_sets :: failing_sets where
  "example_sets policyID = (if policyID = 7 then [alice, bob] else [])"

definition example_hostsets :: "64 word \<Rightarrow> error + PolicySetHost list" where
  "example_hostsets policyID = Inr (example_sets policyID)"

definition broken_hostsets :: "64 word \<Rightarrow> error + PolicySetHost list" where
  "broken_hostsets policyID = Inl (ErrOther ''set unavailable'')"

definition always_delivered :: "string \<Rightarrow> (nat, string) FailingPoliciesPayload \<Rightarrow> error option" where
  "always_delivered url payload = None"

text \<open>
  Modelled from the spec: the same set with another writer, the evaluation engine of
  section 4.1. While the cycle waits for the transport, host \<open>late\<close> starts to fail
  policy 7 and is added to its set.
\<close>

definition carol :: PolicySetHost where
  "carol = \<lparr> ID = 103, Hostname = ''carol-desktop'' \<rparr>"

definition racing_env :: "PolicySetHost \<Rightarrow> (failing_sets, nat, string) collaborators" where
  "racing_env late =
     \<lparr> ds_Policy = (\<lambda>s policyID. (example_catalog policyID, s)),
       ListHosts = (\<lambda>s policyID. (Inr (s policyID), s)),
       PostJSONWithTimeout = (\<lambda>s url payload. (None, s(7 := s 7 @ [late]))),
       RemoveHosts = (\<lambda>s policyID hosts.
                        (None, s(policyID := spec_removeHosts (s policyID) hosts))) \<rparr>"

section \<open>Auxiliary facts\<close>

lemma fillFailingHosts_inv:
  "length failingHosts = length hosts \<Longrightarrow> i \<le> length hosts \<Longrightarrow>
   fillFailingHosts i hosts serverURL failingHosts =
     take i failingHosts @ map (\<lambda>h. makeFailingHost h serverURL) (drop i hosts)"
proof (induction i hosts serverURL failingHosts rule: fillFailingHosts.induct)
  case (1 i hosts serverURL failingHosts)
  show ?case
  proof (cases "i < length hosts")
    case True
    let ?x = "makeFailingHost (hosts ! i) serverURL"
    have "fillFailingHosts i hosts serverURL failingHosts =
            fillFailingHosts (Suc i) hosts serverURL (failingHosts[i := ?x])"
      using True by (simp add: fillFailingHosts.simps [of i])
    also have "\<dots> = take (Suc i) (failingHosts[i := ?x])
                       @ map (\<lambda>h. makeFailingHost h serverURL) (drop (Suc i) hosts)"
      using "1.IH" [OF True] "1.prems" True by simp
    also have "take (Suc i) (failingHosts[i := ?x]) = take i failingHosts @ [?x]"
      using "1.prems" True by (simp add: take_Suc_conv_app_nth)
    also have "(take i failingHosts @ [?x])
                 @ map (\<lambda>h. makeFailingHost h serverURL) (drop (Suc i) hosts)
               = take i failingHosts @ map (\<lambda>h. makeFailingHost h serverURL) (drop i hosts)"
      using True by (simp add: Cons_nth_drop_Suc [symmetric])
    finally show ?thesis .
  next
    case False
    with "1.prems" show ?thesis
      by (subst fillFailingHosts.simps) simp
  qed
qed

lemma buildFailingHosts_map:
  "buildFailingHosts hosts serverURL = map (\<lambda>h. makeFailingHost h serverURL) hosts"
  by (simp add: buildFailingHosts_def fillFailingHosts_inv)

lemma buildFailingHosts_Nil: "buildFailingHosts [] serverURL = []"
  by (simp add: buildFailingHosts_map)

lemma policies_loop_append:
  "policies_loop env appConfig now w (xs @ ys) =
     (case policies_loop env appConfig now w xs of
        (Some err, w1, calls1) \<Rightarrow> (Some err, w1, calls1)
      | (None, w1, calls1) \<Rightarrow>
          (case policies_loop env appConfig now w1 ys of
             (r, w2, calls2) \<Rightarrow> (r, w2, calls1 @ calls2)))"
proof (induction xs arbitrary: w)
  case Nil
  show ?case by (simp split: prod.splits)
next
  case (Cons policyID xs)
  show ?case
    by (simp add: Cons.IH Let_def split: prod.splits sum.splits option.splits)
qed

lemma policies_loop_after_prefix:
  assumes "policies_loop env appConfig now w xs = (None, w0, calls0)"
  shows "policies_loop env appConfig now w (xs @ ys) =
           (case policies_loop env appConfig now w0 ys of
              (r, w', calls) \<Rightarrow> (r, w', calls0 @ calls))"
  using assms by (simp add: policies_loop_append)

lemma Itoa_42: "Itoa 42 = ''42''"
  by (simp add: Itoa_def uint_digits.simps [of 42] uint_digits.simps [of 4] digit_char_def)

section \<open>The payload builder: host links and host lists\<close>

text \<open>
  C2. The deep link of a failing host is meant to be the server address, then
  \<^verbatim>\<open>/hosts/\<close>, then the host identifier in base 10. The code joins the three parts
  with \<^verbatim>\<open>path.Join\<close>, which cleans the result as a file path and so merges the two
  slashes after the scheme: for the address \<^verbatim>\<open>https://fleet.example.com\<close> and host 42 the
  link is \<^verbatim>\<open>https:/fleet.example.com/hosts/42\<close>, not the address followed by
  \<^verbatim>\<open>/hosts/42\<close>.
\<close>

theorem makeFailingHost_url_loses_slash:
  "fh_URL (makeFailingHost \<lparr> ID = 42, Hostname = name \<rparr> ''https://fleet.example.com'')
     = ''https:/fleet.example.com/hosts/42''
   \<and> fh_URL (makeFailingHost \<lparr> ID = 42, Hostname = name \<rparr> ''https://fleet.example.com'')
     \<noteq> ''https://fleet.example.com'' @ ''/hosts/'' @ ''42''"
  by (simp add: makeFailingHost_def Join_def Clean_def Itoa_42)

text \<open>The loop alone, on an identifier at any position of its list.\<close>

lemma loop_payload_hosts_follow_snapshot:
  assumes "policies_loop env appConfig now w xs = (None, w0, calls0)"
    and "ds_Policy env w0 policyID = (Inr policy, w1)"
    and "ListHosts env w1 policyID = (Inr hosts, w2)"
  shows "\<exists>payload rest.
           snd (snd (policies_loop env appConfig now w (xs @ policyID # ys)))
             = calls0 @ CallPolicy policyID # CallListHosts policyID
                 # CallPostJSON (DestinationURL (FailingPoliciesWebhook (WebhookSettings appConfig)))
                     payload # rest
           \<and> length (FailingHosts payload) = length hosts
           \<and> map fh_ID (FailingHosts payload) = map ID hosts
           \<and> map fh_Hostname (FailingHosts payload) = map Hostname hosts
           \<and> map fh_URL (FailingHosts payload)
               = map (\<lambda>h. Join [ServerURL (ServerSettings appConfig), ''hosts'', Itoa (sint (ID h))])
                   hosts"
proof -
  let ?serverURL = "ServerURL (ServerSettings appConfig)"
  let ?url = "DestinationURL (FailingPoliciesWebhook (WebhookSettings appConfig))"
  let ?payload = "\<lparr> Timestamp = now, Policy = policy,
                     FailingHosts = buildFailingHosts hosts ?serverURL \<rparr>"
  have shape: "\<exists>rest. snd (snd (policies_loop env appConfig now w0 (policyID # ys)))
                  = CallPolicy policyID # CallListHosts policyID # CallPostJSON ?url ?payload # rest"
    using assms(2,3) by (simp add: Let_def split: prod.splits option.splits)
  then obtain rest where rest:
    "snd (snd (policies_loop env appConfig now w0 (policyID # ys)))
       = CallPolicy policyID # CallListHosts policyID # CallPostJSON ?url ?payload # rest"
    by blast
  have "snd (snd (policies_loop env appConfig now w (xs @ policyID # ys)))
          = calls0 @ snd (snd (policies_loop env appConfig now w0 (policyID # ys)))"
    by (simp add: policies_loop_after_prefix [OF assms(1)] split: prod.splits)
  with rest have calls:
    "snd (snd (policies_loop env appConfig now w (xs @ policyID # ys)))
       = calls0 @ CallPolicy policyID # CallListHosts policyID # CallPostJSON ?url ?payload # rest"
    by simp
  have hosts: "length (FailingHosts ?payload) = length hosts"
    "map fh_ID (FailingHosts ?payload) = map ID hosts"
    "map fh_Hostname (FailingHosts ?payload) = map Hostname hosts"
    "map fh_URL (FailingHosts ?payload)
       = map (\<lambda>h. Join [?serverURL, ''hosts'', Itoa (sint (ID h))]) hosts"
    by (simp_all add: buildFailingHosts_map makeFailingHost_def)
  from calls hosts show ?thesis by blast
qed

text \<open>
  C10. In a run of the enabled cycle, at any position of the configured list reached
  without a fatal error: when the metadata lookup and the snapshot of the identifier
  succeed, the next call
  is the delivery, and the host list of its payload has the length and the order of the
  snapshot: entry by entry the same identifier and the same hostname, and a link derived
  from the server address and the identifier.
\<close>

theorem payload_hosts_follow_snapshot:
  assumes "Enable (FailingPoliciesWebhook (WebhookSettings appConfig))"
    and "PolicyIDs (FailingPoliciesWebhook (WebhookSettings appConfig)) = xs @ policyID # ys"
    and "policies_loop env appConfig now w xs = (None, w0, calls0)"
    and "ds_Policy env w0 policyID = (Inr policy, w1)"
    and "ListHosts env w1 policyID = (Inr hosts, w2)"
  shows "\<exists>payload rest.
           snd (snd (TriggerFailingPoliciesWebhook env appConfig now w))
             = calls0 @ CallPolicy policyID # CallListHosts policyID
                 # CallPostJSON (DestinationURL (FailingPoliciesWebhook (WebhookSettings appConfig)))
                     payload # rest
           \<and> length (FailingHosts payload) = length hosts
           \<and> map fh_ID (FailingHosts payload) = map ID hosts
           \<and> map fh_Hostname (FailingHosts payload) = map Hostname hosts
           \<and> map fh_URL (FailingHosts payload)
               = map (\<lambda>h. Join [ServerURL (ServerSettings appConfig), ''hosts'', Itoa (sint (ID h))])
                   hosts"
proof -
  have run: "TriggerFailingPoliciesWebhook env appConfig now w
               = policies_loop env appConfig now w (xs @ policyID # ys)"
    using assms(1,2) by (simp add: TriggerFailingPoliciesWebhook_def)
  show ?thesis
    unfolding run by (rule loop_payload_hosts_follow_snapshot [OF assms(3-5)])
qed

theorem payload_hosts_follow_snapshot_witness:
  "Enable (FailingPoliciesWebhook (WebhookSettings (example_config True [9, 7])))
   \<and> PolicyIDs (FailingPoliciesWebhook (WebhookSettings (example_config True [9, 7])))
     = [9] @ 7 # []
   \<and> policies_loop (scripted_env example_catalog example_hostsets None None)
     (example_config True [9, 7]) (0::nat) () [9]
     = (None, (), [CallPolicy 9])
   \<and> ds_Policy (scripted_env example_catalog example_hostsets None None
                  :: (unit, nat, string) collaborators) () 7
     = (Inr ''Disk encryption enabled'', ())
   \<and> ListHosts (scripted_env example_catalog example_hostsets None None
                  :: (unit, nat, string) collaborators) () 7
     = (Inr [alice, bob], ())
   \<and> (\<exists>payload rest.
        snd (snd (TriggerFailingPoliciesWebhook
                    (scripted_env example_catalog example_hostsets None None)
                    (example_config True [9, 7]) (0::nat) ()))
          = [CallPolicy 9] @ CallPolicy 7 # CallListHosts 7
              # CallPostJSON ''https://hooks.example.com/failing'' payload # rest
        \<and> map fh_ID (FailingHosts payload) = [101, 102]
        \<and> map fh_Hostname (FailingHosts payload) = [''alice-laptop'', ''bob-laptop''])"
proof -
  let ?env = "scripted_env example_catalog example_hostsets None None
                :: (unit, nat, string) collaborators"
  let ?cfg = "example_config True [9, 7]"
  have en: "Enable (FailingPoliciesWebhook (WebhookSettings ?cfg))"
    by (simp add: example_config_def)
  have ids: "PolicyIDs (FailingPoliciesWebhook (WebhookSettings ?cfg)) = [9] @ 7 # []"
    by (simp add: example_config_def)
  have h1: "policies_loop ?env ?cfg (0::nat) () [9] = (None, (), [CallPolicy 9])"
    by (simp add: scripted_env_def example_catalog_def)
  have h2: "ds_Policy ?env () 7 = (Inr ''Disk encryption enabled'', ())"
    by (simp add: scripted_env_def example_catalog_def)
  have h3: "ListHosts ?env () 7 = (Inr [alice, bob], ())"
    by (simp add: scripted_env_def example_hostsets_def example_sets_def)
  from payload_hosts_follow_snapshot [OF en ids h1 h2 h3]
  obtain payload rest where
    "snd (snd (TriggerFailingPoliciesWebhook ?env ?cfg (0::nat) ()))
       = [CallPolicy 9] @ CallPolicy 7 # CallListHosts 7
           # CallPostJSON (DestinationURL (FailingPoliciesWebhook (WebhookSettings ?cfg)))
               payload # rest"
    "map fh_ID (FailingHosts payload) = map ID [alice, bob]"
    "map fh_Hostname (FailingHosts payload) = map Hostname [alice, bob]"
    by blast
  then have "snd (snd (TriggerFailingPoliciesWebhook ?env ?cfg (0::nat) ()))
       = [CallPolicy 9] @ CallPolicy 7 # CallListHosts 7
           # CallPostJSON ''https://hooks.example.com/failing'' payload # rest
     \<and> map fh_ID (FailingHosts payload) = [101, 102]
     \<and> map fh_Hostname (FailingHosts payload) = [''alice-laptop'', ''bob-laptop'']"
    by (simp add: example_config_def alice_def bob_def)
  then have "\<exists>payload rest.
        snd (snd (TriggerFailingPoliciesWebhook ?env ?cfg (0::nat) ()))
          = [CallPolicy 9] @ CallPolicy 7 # CallListHosts 7
              # CallPostJSON ''https://hooks.example.com/failing'' payload # rest
        \<and> map fh_ID (FailingHosts payload) = [101, 102]
        \<and> map fh_Hostname (FailingHosts payload) = [''alice-laptop'', ''bob-laptop'']"
    by - (rule exI [of _ payload], rule exI [of _ rest], assumption)
  with en ids h1 h2 h3 show ?thesis by (intro conjI)
qed

section \<open>The trigger cycle: what a run calls and what it returns\<close>

text \<open>
  C5. With the webhook disabled the cycle returns \<^verbatim>\<open>nil\<close> at once: it makes no call
  to the policy catalog, to the failing-policy set or to the transport, and the state
  outside the cycle is as before.
\<close>

theorem disabled_webhook_is_noop:
  assumes "\<not> Enable (FailingPoliciesWebhook (WebhookSettings appConfig))"
  shows "TriggerFailingPoliciesWebhook env appConfig now w = (None, w, [])"
  using assms by (simp add: TriggerFailingPoliciesWebhook_def)

theorem disabled_webhook_is_noop_witness:
  "\<not> Enable (FailingPoliciesWebhook (WebhookSettings (example_config False [7, 8])))
   \<and> TriggerFailingPoliciesWebhook (store_env example_catalog always_delivered)
       (example_config False [7, 8]) 0 example_sets
     = (None, example_sets, [])"
proof -
  have h: "\<not> Enable (FailingPoliciesWebhook (WebhookSettings (example_config False [7, 8])))"
    by (simp add: example_config_def)
  from h disabled_webhook_is_noop [OF h] show ?thesis by (intro conjI)
qed

text \<open>The loop alone, on an identifier at any position of its list.\<close>

lemma loop_skips_deleted_policy:
  assumes "policies_loop env appConfig now w xs = (None, w0, calls0)"
    and "ds_Policy env w0 policyID = (Inl err, w1)"
    and "errors_Is err ErrNoRows"
  shows "policies_loop env appConfig now w (xs @ policyID # ys) =
           (case policies_loop env appConfig now w1 ys of
              (r, w', calls) \<Rightarrow> (r, w', calls0 @ CallPolicy policyID # calls))"
  using assms(2,3)
  by (simp add: policies_loop_after_prefix [OF assms(1)] split: prod.splits)

text \<open>
  C6. In a run of the enabled cycle, at any position of the configured list reached
  without a fatal error: when the metadata lookup of the identifier fails with not-found, the
  lookup is the only call made for that identifier: no snapshot, no delivery, no
  removal. The cycle goes on with the next identifiers, and what it returns is what
  their processing returns, so the skip itself surfaces no error.
\<close>

theorem deleted_policy_is_skipped:
  assumes "Enable (FailingPoliciesWebhook (WebhookSettings appConfig))"
    and "PolicyIDs (FailingPoliciesWebhook (WebhookSettings appConfig)) = xs @ policyID # ys"
    and "policies_loop env appConfig now w xs = (None, w0, calls0)"
    and "ds_Policy env w0 policyID = (Inl err, w1)"
    and "errors_Is err ErrNoRows"
  shows "TriggerFailingPoliciesWebhook env appConfig now w =
           (case policies_loop env appConfig now w1 ys of
              (r, w', calls) \<Rightarrow> (r, w', calls0 @ CallPolicy policyID # calls))"
proof -
  have run: "TriggerFailingPoliciesWebhook env appConfig now w
               = policies_loop env appConfig now w (xs @ policyID # ys)"
    using assms(1,2) by (simp add: TriggerFailingPoliciesWebhook_def)
  show ?thesis
    unfolding run by (rule loop_skips_deleted_policy [OF assms(3-5)])
qed

theorem deleted_policy_is_skipped_witness:
  "Enable (FailingPoliciesWebhook (WebhookSettings (example_config True [8, 9, 7])))
   \<and> PolicyIDs (FailingPoliciesWebhook (WebhookSettings (example_config True [8, 9, 7])))
     = [8] @ 9 # [7]
   \<and> policies_loop (store_env example_catalog always_delivered) (example_config True [8, 9, 7])
       0 example_sets [8]
     = (None, example_sets,
        [CallPolicy 8, CallListHosts 8,
         CallPostJSON ''https://hooks.example.com/failing''
           \<lparr> Timestamp = 0, Policy = ''Firewall enabled'', FailingHosts = [] \<rparr>,
         CallRemoveHosts 8 []])
   \<and> ds_Policy (store_env example_catalog always_delivered) example_sets 9
     = (Inl ErrNoRows, example_sets)
   \<and> errors_Is ErrNoRows ErrNoRows
   \<and> TriggerFailingPoliciesWebhook (store_env example_catalog always_delivered)
       (example_config True [8, 9, 7]) 0 example_sets
     = (None, example_sets(7 := []),
        [CallPolicy 8, CallListHosts 8,
         CallPostJSON ''https://hooks.example.com/failing''
           \<lparr> Timestamp = 0, Policy = ''Firewall enabled'', FailingHosts = [] \<rparr>,
         CallRemoveHosts 8 [],
         CallPolicy 9,
         CallPolicy 7, CallListHosts 7,
         CallPostJSON ''https://hooks.example.com/failing''
           \<lparr> Timestamp = 0, Policy = ''Disk encryption enabled'',
             FailingHosts = buildFailingHosts [alice, bob] ''https://fleet.example.com'' \<rparr>,
         CallRemoveHosts 7 [alice, bob]])"
proof -
  let ?env = "store_env example_catalog always_delivered"
  let ?cfg = "example_config True [8, 9, 7]"
  have en: "Enable (FailingPoliciesWebhook (WebhookSettings ?cfg))"
    by (simp add: example_config_def)
  have ids: "PolicyIDs (FailingPoliciesWebhook (WebhookSettings ?cfg)) = [8] @ 9 # [7]"
    by (simp add: example_config_def)
  have e8: "example_sets 8 = []"
    by (simp add: example_sets_def)
  have sets: "example_sets(8 := []) = example_sets"
    by (rule ext) (simp add: example_sets_def)
  have h1: "policies_loop ?env ?cfg 0 example_sets [8]
     = (None, example_sets,
        [CallPolicy 8, CallListHosts 8,
         CallPostJSON ''https://hooks.example.com/failing''
           \<lparr> Timestamp = 0, Policy = ''Firewall enabled'', FailingHosts = [] \<rparr>,
         CallRemoveHosts 8 []])"
    by (simp add: store_env_def example_catalog_def always_delivered_def example_config_def
        buildFailingHosts_Nil spec_removeHosts_def e8 sets)
  have h2: "ds_Policy ?env example_sets 9 = (Inl ErrNoRows, example_sets)"
    by (simp add: store_env_def example_catalog_def)
  have h3: "errors_Is ErrNoRows ErrNoRows"
    by simp
  have e7: "example_sets 7 = [alice, bob]"
    by (simp add: example_sets_def)
  have rest: "policies_loop ?env ?cfg 0 example_sets [7]
     = (None, example_sets(7 := []),
        [CallPolicy 7, CallListHosts 7,
         CallPostJSON ''https://hooks.example.com/failing''
           \<lparr> Timestamp = 0, Policy = ''Disk encryption enabled'',
             FailingHosts = buildFailingHosts [alice, bob] ''https://fleet.example.com'' \<rparr>,
         CallRemoveHosts 7 [alice, bob]])"
    by (simp add: store_env_def example_catalog_def always_delivered_def example_config_def
        spec_removeHosts_def e7)
  from deleted_policy_is_skipped [OF en ids h1 h2 h3]
  have whole: "TriggerFailingPoliciesWebhook ?env ?cfg 0 example_sets
     = (None, example_sets(7 := []),
        [CallPolicy 8, CallListHosts 8,
         CallPostJSON ''https://hooks.example.com/failing''
           \<lparr> Timestamp = 0, Policy = ''Firewall enabled'', FailingHosts = [] \<rparr>,
         CallRemoveHosts 8 [],
         CallPolicy 9,
         CallPolicy 7, CallListHosts 7,
         CallPostJSON ''https://hooks.example.com/failing''
           \<lparr> Timestamp = 0, Policy = ''Disk encryption enabled'',
             FailingHosts = buildFailingHosts [alice, bob] ''https://fleet.example.com'' \<rparr>,
         CallRemoveHosts 7 [alice, bob]])"
    by (simp only: rest prod.case append.simps)
  from en ids h1 h2 h3 whole show ?thesis by (intro conjI)
qed

text \<open>The loop alone, on an identifier at any position of its list.\<close>

lemma loop_aborts_on_fatal_error:
  assumes "policies_loop env appConfig now w xs = (None, w0, calls0)"
  shows
    "(let url = DestinationURL (FailingPoliciesWebhook (WebhookSettings appConfig));
          payload = \<lparr> Timestamp = now, Policy = policy,
                      FailingHosts = buildFailingHosts hosts (ServerURL (ServerSettings appConfig)) \<rparr>
      in
        (ds_Policy env w0 policyID = (Inl err, w1) \<and> \<not> errors_Is err ErrNoRows \<longrightarrow>
           policies_loop env appConfig now w (xs @ policyID # ys) =
             (Some (Wrapf err ''failing to load failing policies set %d'' [ArgUint policyID]),
              w1, calls0 @ [CallPolicy policyID]))
      \<and> (ds_Policy env w0 policyID = (Inr policy, w1) \<and>
           ListHosts env w1 policyID = (Inl err, w2) \<longrightarrow>
           policies_loop env appConfig now w (xs @ policyID # ys) =
             (Some (Wrapf err ''listing hosts for failing policies set %d'' [ArgUint policyID]),
              w2, calls0 @ [CallPolicy policyID, CallListHosts policyID]))
      \<and> (ds_Policy env w0 policyID = (Inr policy, w1) \<and>
           ListHosts env w1 policyID = (Inr hosts, w2) \<and>
           PostJSONWithTimeout env w2 url payload = (Some err, w3) \<longrightarrow>
           policies_loop env appConfig now w (xs @ policyID # ys) =
             (Some (Wrapf err (''posting to '' @ [CHR 0x27] @ ''%s'' @ [CHR 0x27]) [ArgString url]),
              w3, calls0 @ [CallPolicy policyID, CallListHosts policyID, CallPostJSON url payload]))
      \<and> (ds_Policy env w0 policyID = (Inr policy, w1) \<and>
           ListHosts env w1 policyID = (Inr hosts, w2) \<and>
           PostJSONWithTimeout env w2 url payload = (None, w3) \<and>
           RemoveHosts env w3 policyID hosts = (Some err, w4) \<longrightarrow>
           policies_loop env appConfig now w (xs @ policyID # ys) =
             (Some (Wrapf err ''removing hosts %+v from failing policies set %d''
                      [ArgHosts hosts, ArgUint policyID]),
              w4, calls0 @ [CallPolicy policyID, CallListHosts policyID,
                            CallPostJSON url payload, CallRemoveHosts policyID hosts])))"
  unfolding Let_def
proof (intro conjI impI; elim conjE)
  assume "ds_Policy env w0 policyID = (Inl err, w1)" "\<not> errors_Is err ErrNoRows"
  then show "policies_loop env appConfig now w (xs @ policyID # ys) =
      (Some (Wrapf err ''failing to load failing policies set %d'' [ArgUint policyID]),
       w1, calls0 @ [CallPolicy policyID])"
    by (simp add: policies_loop_after_prefix [OF assms])
next
  assume "ds_Policy env w0 policyID = (Inr policy, w1)"
    "ListHosts env w1 policyID = (Inl err, w2)"
  then show "policies_loop env appConfig now w (xs @ policyID # ys) =
      (Some (Wrapf err ''listing hosts for failing policies set %d'' [ArgUint policyID]),
       w2, calls0 @ [CallPolicy policyID, CallListHosts policyID])"
    by (simp add: policies_loop_after_prefix [OF assms])
next
  let ?url = "DestinationURL (FailingPoliciesWebhook (WebhookSettings appConfig))"
  let ?payload = "\<lparr> Timestamp = now, Policy = policy,
      FailingHosts = buildFailingHosts hosts (ServerURL (ServerSettings appConfig)) \<rparr>"
  assume "ds_Policy env w0 policyID = (Inr policy, w1)"
    "ListHosts env w1 policyID = (Inr hosts, w2)"
    "PostJSONWithTimeout env w2 ?url ?payload = (Some err, w3)"
  then show "policies_loop env appConfig now w (xs @ policyID # ys) =
      (Some (Wrapf err (''posting to '' @ [CHR 0x27] @ ''%s'' @ [CHR 0x27]) [ArgString ?url]),
       w3, calls0 @ [CallPolicy policyID, CallListHosts policyID, CallPostJSON ?url ?payload])"
    by (simp add: policies_loop_after_prefix [OF assms] Let_def)
next
  let ?url = "DestinationURL (FailingPoliciesWebhook (WebhookSettings appConfig))"
  let ?payload = "\<lparr> Timestamp = now, Policy = policy,
      FailingHosts = buildFailingHosts hosts (ServerURL (ServerSettings appConfig)) \<rparr>"
  assume "ds_Policy env w0 policyID = (Inr policy, w1)"
    "ListHosts env w1 policyID = (Inr hosts, w2)"
    "PostJSONWithTimeout env w2 ?url ?payload = (None, w3)"
    "RemoveHosts env w3 policyID hosts = (Some err, w4)"
  then show "policies_loop env appConfig now w (xs @ policyID # ys) =
      (Some (Wrapf err ''removing hosts %+v from failing policies set %d''
               [ArgHosts hosts, ArgUint policyID]),
       w4, calls0 @ [CallPolicy policyID, CallListHosts policyID,
                     CallPostJSON ?url ?payload, CallRemoveHosts policyID hosts])"
    by (simp add: policies_loop_after_prefix [OF assms] Let_def)
qed

text \<open>
  C3. In a run of the enabled cycle, a fatal error while the policy at some position of
  the configured list is processed ends the run there. The four cases are a metadata error other than not-found,
  a failed snapshot, a failed delivery and a failed removal. In each the cycle returns
  that error, wrapped with its context, and the calls of the run end with the call that
  failed: nothing is called for the identifiers after it, and after a failed delivery no
  removal is called for the policy.
\<close>

theorem fatal_error_aborts_cycle:
  assumes "Enable (FailingPoliciesWebhook (WebhookSettings appConfig))"
    and "PolicyIDs (FailingPoliciesWebhook (WebhookSettings appConfig)) = xs @ policyID # ys"
    and "policies_loop env appConfig now w xs = (None, w0, calls0)"
  shows
    "(let url = DestinationURL (FailingPoliciesWebhook (WebhookSettings appConfig));
          payload = \<lparr> Timestamp = now, Policy = policy,
                      FailingHosts = buildFailingHosts hosts (ServerURL (ServerSettings appConfig)) \<rparr>
      in
        (ds_Policy env w0 policyID = (Inl err, w1) \<and> \<not> errors_Is err ErrNoRows \<longrightarrow>
           TriggerFailingPoliciesWebhook env appConfig now w =
             (Some (Wrapf err ''failing to load failing policies set %d'' [ArgUint policyID]),
              w1, calls0 @ [CallPolicy policyID]))
      \<and> (ds_Policy env w0 policyID = (Inr policy, w1) \<and>
           ListHosts env w1 policyID = (Inl err, w2) \<longrightarrow>
           TriggerFailingPoliciesWebhook env appConfig now w =
             (Some (Wrapf err ''listing hosts for failing policies set %d'' [ArgUint policyID]),
              w2, calls0 @ [CallPolicy policyID, CallListHosts policyID]))
      \<and> (ds_Policy env w0 policyID = (Inr policy, w1) \<and>
           ListHosts env w1 policyID = (Inr hosts, w2) \<and>
           PostJSONWithTimeout env w2 url payload = (Some err, w3) \<longrightarrow>
           TriggerFailingPoliciesWebhook env appConfig now w =
             (Some (Wrapf err (''posting to '' @ [CHR 0x27] @ ''%s'' @ [CHR 0x27]) [ArgString url]),
              w3, calls0 @ [CallPolicy policyID, CallListHosts policyID, CallPostJSON url payload]))
      \<and> (ds_Policy env w0 policyID = (Inr policy, w1) \<and>
           ListHosts env w1 policyID = (Inr hosts, w2) \<and>
           PostJSONWithTimeout env w2 url payload = (None, w3) \<and>
           RemoveHosts env w3 policyID hosts = (Some err, w4) \<longrightarrow>
           TriggerFailingPoliciesWebhook env appConfig now w =
             (Some (Wrapf err ''removing hosts %+v from failing policies set %d''
                      [ArgHosts hosts, ArgUint policyID]),
              w4, calls0 @ [CallPolicy policyID, CallListHosts policyID,
                            CallPostJSON url payload, CallRemoveHosts policyID hosts])))"
proof -
  have run: "TriggerFailingPoliciesWebhook env appConfig now w
               = policies_loop env appConfig now w (xs @ policyID # ys)"
    using assms(1,2) by (simp add: TriggerFailingPoliciesWebhook_def)
  show ?thesis
    unfolding run by (rule loop_aborts_on_fatal_error [OF assms(3)])
qed

theorem fatal_error_aborts_cycle_witness:
  "TriggerFailingPoliciesWebhook (scripted_env broken_catalog example_hostsets None None)
     (example_config True [7, 8]) (0::nat) ()
     = (Some (Wrapf (ErrOther ''connection refused'')
                ''failing to load failing policies set %d'' [ArgUint 7]),
        (), [] @ [CallPolicy 7])
   \<and> TriggerFailingPoliciesWebhook (scripted_env example_catalog broken_hostsets None None)
       (example_config True [9, 7, 8]) (0::nat) ()
     = (Some (Wrapf (ErrOther ''set unavailable'')
                ''listing hosts for failing policies set %d'' [ArgUint 7]),
        (), [CallPolicy 9] @ [CallPolicy 7, CallListHosts 7])
   \<and> TriggerFailingPoliciesWebhook
       (scripted_env example_catalog example_hostsets (Some (ErrOther ''timeout'')) None)
       (example_config True [9, 7, 8]) (0::nat) ()
     = (Some (Wrapf (ErrOther ''timeout'') (''posting to '' @ [CHR 0x27] @ ''%s'' @ [CHR 0x27])
                [ArgString ''https://hooks.example.com/failing'']),
        (), [CallPolicy 9]
              @ [CallPolicy 7, CallListHosts 7,
                 CallPostJSON ''https://hooks.example.com/failing''
                   \<lparr> Timestamp = 0, Policy = ''Disk encryption enabled'',
                     FailingHosts = buildFailingHosts [alice, bob] ''https://fleet.example.com'' \<rparr>])
   \<and> TriggerFailingPoliciesWebhook
       (scripted_env example_catalog example_hostsets None (Some (ErrOther ''set unavailable'')))
       (example_config True [9, 7, 8]) (0::nat) ()
     = (Some (Wrapf (ErrOther ''set unavailable'')
                ''removing hosts %+v from failing policies set %d''
                [ArgHosts [alice, bob], ArgUint 7]),
        (), [CallPolicy 9]
              @ [CallPolicy 7, CallListHosts 7,
                 CallPostJSON ''https://hooks.example.com/failing''
                   \<lparr> Timestamp = 0, Policy = ''Disk encryption enabled'',
                     FailingHosts = buildFailingHosts [alice, bob] ''https://fleet.example.com'' \<rparr>,
                 CallRemoveHosts 7 [alice, bob]])"
proof -
  let ?cfg = "example_config True [9, 7, 8]"
  let ?url = "''https://hooks.example.com/failing''"
  let ?payload = "\<lparr> Timestamp = 0::nat, Policy = ''Disk encryption enabled'',
      FailingHosts = buildFailingHosts [alice, bob] ''https://fleet.example.com'' \<rparr>"
  have en: "Enable (FailingPoliciesWebhook (WebhookSettings ?cfg))"
    "Enable (FailingPoliciesWebhook (WebhookSettings (example_config True [7, 8])))"
    by (simp_all add: example_config_def)
  have ids: "PolicyIDs (FailingPoliciesWebhook (WebhookSettings ?cfg)) = [9] @ 7 # [8]"
    by (simp add: example_config_def)
  have idsA: "PolicyIDs (FailingPoliciesWebhook (WebhookSettings (example_config True [7, 8])))
                = [] @ 7 # [8]"
    by (simp add: example_config_def)
  have url: "DestinationURL (FailingPoliciesWebhook (WebhookSettings ?cfg)) = ?url"
    "ServerURL (ServerSettings ?cfg) = ''https://fleet.example.com''"
    by (simp_all add: example_config_def)
  have e7: "example_hostsets 7 = Inr [alice, bob]"
    by (simp add: example_hostsets_def example_sets_def)
  have c7: "example_catalog 7 = Inr ''Disk encryption enabled''"
    by (simp add: example_catalog_def)

  let ?envA = "scripted_env broken_catalog example_hostsets None None
                 :: (unit, nat, string) collaborators"
  have a0: "policies_loop ?envA (example_config True [7, 8]) 0 () [] = (None, (), [])"
    by simp
  have a1: "ds_Policy ?envA () 7 = (Inl (ErrOther ''connection refused''), ())"
    by (simp add: scripted_env_def broken_catalog_def)
  have a2: "\<not> errors_Is (ErrOther ''connection refused'') ErrNoRows"
    by simp
  note A = fatal_error_aborts_cycle [OF en(2) idsA a0, unfolded Let_def, THEN conjunct1,
      rule_format, OF conjI, OF a1 a2]

  let ?envB = "scripted_env example_catalog broken_hostsets None None
                 :: (unit, nat, string) collaborators"
  have b0: "policies_loop ?envB ?cfg 0 () [9] = (None, (), [CallPolicy 9])"
    by (simp add: scripted_env_def example_catalog_def)
  have b1: "ds_Policy ?envB () 7 = (Inr ''Disk encryption enabled'', ())"
    by (simp add: scripted_env_def c7)
  have b2: "ListHosts ?envB () 7 = (Inl (ErrOther ''set unavailable''), ())"
    by (simp add: scripted_env_def broken_hostsets_def)
  note B = fatal_error_aborts_cycle [OF en(1) ids b0, unfolded Let_def, THEN conjunct2,
      THEN conjunct1, rule_format, OF conjI, OF b1 b2]

  let ?envC = "scripted_env example_catalog example_hostsets (Some (ErrOther ''timeout'')) None
                 :: (unit, nat, string) collaborators"
  have c0: "policies_loop ?envC ?cfg 0 () [9] = (None, (), [CallPolicy 9])"
    by (simp add: scripted_env_def example_catalog_def)
  have c1: "ds_Policy ?envC () 7 = (Inr ''Disk encryption enabled'', ())"
    by (simp add: scripted_env_def c7)
  have c2: "ListHosts ?envC () 7 = (Inr [alice, bob], ())"
    by (simp add: scripted_env_def e7)
  have c3: "PostJSONWithTimeout ?envC ()
              (DestinationURL (FailingPoliciesWebhook (WebhookSettings ?cfg)))
              \<lparr> Timestamp = 0, Policy = ''Disk encryption enabled'',
                FailingHosts = buildFailingHosts [alice, bob] (ServerURL (ServerSettings ?cfg)) \<rparr>
            = (Some (ErrOther ''timeout''), ())"
    by (simp add: scripted_env_def)
  note C = fatal_error_aborts_cycle [OF en(1) ids c0, unfolded Let_def, THEN conjunct2,
      THEN conjunct2, THEN conjunct1, rule_format, OF conjI [OF c1 conjI [OF c2 c3]],
      unfolded url]

  let ?envD = "scripted_env example_catalog example_hostsets None
                 (Some (ErrOther ''set unavailable'')) :: (unit, nat, string) collaborators"
  have d0: "policies_loop ?envD ?cfg 0 () [9] = (None, (), [CallPolicy 9])"
    by (simp add: scripted_env_def example_catalog_def)
  have d1: "ds_Policy ?envD () 7 = (Inr ''Disk encryption enabled'', ())"
    by (simp add: scripted_env_def c7)
  have d2: "ListHosts ?envD () 7 = (Inr [alice, bob], ())"
    by (simp add: scripted_env_def e7)
  have d3: "PostJSONWithTimeout ?envD ()
              (DestinationURL (FailingPoliciesWebhook (WebhookSettings ?cfg)))
              \<lparr> Timestamp = 0, Policy = ''Disk encryption enabled'',
                FailingHosts = buildFailingHosts [alice, bob] (ServerURL (ServerSettings ?cfg)) \<rparr>
            = (None, ())"
    by (simp add: scripted_env_def)
  have d4: "RemoveHosts ?envD () 7 [alice, bob] = (Some (ErrOther ''set unavailable''), ())"
    by (simp add: scripted_env_def)
  note D = fatal_error_aborts_cycle [OF en(1) ids d0, unfolded Let_def, THEN conjunct2,
      THEN conjunct2, THEN conjunct2, rule_format, OF conjI [OF d1 conjI [OF d2 conjI [OF d3 d4]]],
      unfolded url]

  from A B C D show ?thesis by (intro conjI)
qed

text \<open>The loop alone, on an identifier at any position of its list.\<close>

lemma loop_removes_exactly_the_snapshot:
  assumes "policies_loop env appConfig now w xs = (None, w0, calls0)"
    and "ds_Policy env w0 policyID = (Inr policy, w1)"
    and "ListHosts env w1 policyID = (Inr hosts, w2)"
    and "PostJSONWithTimeout env w2
           (DestinationURL (FailingPoliciesWebhook (WebhookSettings appConfig)))
           \<lparr> Timestamp = now, Policy = policy,
             FailingHosts = buildFailingHosts hosts (ServerURL (ServerSettings appConfig)) \<rparr>
         = (None, w3)"
  shows "\<exists>r w' rest.
           policies_loop env appConfig now w (xs @ policyID # ys) =
             (r, w',
              calls0 @ [CallPolicy policyID, CallListHosts policyID,
                        CallPostJSON
                          (DestinationURL (FailingPoliciesWebhook (WebhookSettings appConfig)))
                          \<lparr> Timestamp = now, Policy = policy,
                            FailingHosts =
                              buildFailingHosts hosts (ServerURL (ServerSettings appConfig)) \<rparr>,
                        CallRemoveHosts policyID hosts] @ rest)
           \<and> (r, w', rest) =
               (case RemoveHosts env w3 policyID hosts of
                  (Some err, w4) \<Rightarrow>
                    (Some (Wrapf err ''removing hosts %+v from failing policies set %d''
                             [ArgHosts hosts, ArgUint policyID]), w4, [])
                | (None, w4) \<Rightarrow> policies_loop env appConfig now w4 ys)"
proof (cases "RemoveHosts env w3 policyID hosts")
  case (Pair res w4)
  show ?thesis
  proof (cases res)
    case None
    obtain r w' rest where tail: "policies_loop env appConfig now w4 ys = (r, w', rest)"
      by (cases "policies_loop env appConfig now w4 ys") auto
    show ?thesis
      using assms(2-4) Pair None tail
      by (simp add: policies_loop_after_prefix [OF assms(1)] Let_def)
  next
    case (Some err)
    show ?thesis
      using assms(2-4) Pair Some
      by (simp add: policies_loop_after_prefix [OF assms(1)] Let_def)
  qed
qed

text \<open>
  C4. In a run of the enabled cycle, at any position of the configured list reached
  without a fatal error: when the delivery for the policy succeeds, the next call is \<^verbatim>\<open>RemoveHosts\<close> for
  that policy with the very list that \<^verbatim>\<open>ListHosts\<close> returned earlier in the iteration,
  whatever happened to the state outside the cycle during the delivery (\<open>w3\<close> is any
  state): hosts added to the set after the snapshot are not in the removal.
\<close>

theorem removal_is_exactly_the_snapshot:
  assumes "Enable (FailingPoliciesWebhook (WebhookSettings appConfig))"
    and "PolicyIDs (FailingPoliciesWebhook (WebhookSettings appConfig)) = xs @ policyID # ys"
    and "policies_loop env appConfig now w xs = (None, w0, calls0)"
    and "ds_Policy env w0 policyID = (Inr policy, w1)"
    and "ListHosts env w1 policyID = (Inr hosts, w2)"
    and "PostJSONWithTimeout env w2
           (DestinationURL (FailingPoliciesWebhook (WebhookSettings appConfig)))
           \<lparr> Timestamp = now, Policy = policy,
             FailingHosts = buildFailingHosts hosts (ServerURL (ServerSettings appConfig)) \<rparr>
         = (None, w3)"
  shows "\<exists>r w' rest.
           TriggerFailingPoliciesWebhook env appConfig now w =
             (r, w',
              calls0 @ [CallPolicy policyID, CallListHosts policyID,
                        CallPostJSON
                          (DestinationURL (FailingPoliciesWebhook (WebhookSettings appConfig)))
                          \<lparr> Timestamp = now, Policy = policy,
                            FailingHosts =
                              buildFailingHosts hosts (ServerURL (ServerSettings appConfig)) \<rparr>,
                        CallRemoveHosts policyID hosts] @ rest)
           \<and> (r, w', rest) =
               (case RemoveHosts env w3 policyID hosts of
                  (Some err, w4) \<Rightarrow>
                    (Some (Wrapf err ''removing hosts %+v from failing policies set %d''
                             [ArgHosts hosts, ArgUint policyID]), w4, [])
                | (None, w4) \<Rightarrow> policies_loop env appConfig now w4 ys)"
proof -
  have run: "TriggerFailingPoliciesWebhook env appConfig now w
               = policies_loop env appConfig now w (xs @ policyID # ys)"
    using assms(1,2) by (simp add: TriggerFailingPoliciesWebhook_def)
  show ?thesis
    unfolding run by (rule loop_removes_exactly_the_snapshot [OF assms(3-6)])
qed

theorem removal_is_exactly_the_snapshot_witness:
  "Enable (FailingPoliciesWebhook (WebhookSettings (example_config True [7])))
   \<and> PolicyIDs (FailingPoliciesWebhook (WebhookSettings (example_config True [7]))) = [] @ 7 # []
   \<and> policies_loop (racing_env carol) (example_config True [7]) 0 example_sets []
     = (None, example_sets, [])
   \<and> ds_Policy (racing_env carol) example_sets 7 = (Inr ''Disk encryption enabled'', example_sets)
   \<and> ListHosts (racing_env carol) example_sets 7 = (Inr [alice, bob], example_sets)
   \<and> PostJSONWithTimeout (racing_env carol) example_sets ''https://hooks.example.com/failing''
       \<lparr> Timestamp = 0, Policy = ''Disk encryption enabled'',
         FailingHosts = buildFailingHosts [alice, bob] ''https://fleet.example.com'' \<rparr>
     = (None, example_sets(7 := [alice, bob, carol]))
   \<and> TriggerFailingPoliciesWebhook (racing_env carol) (example_config True [7]) 0 example_sets
     = (None, example_sets(7 := [carol]),
        [] @ [CallPolicy 7, CallListHosts 7,
              CallPostJSON ''https://hooks.example.com/failing''
                \<lparr> Timestamp = 0, Policy = ''Disk encryption enabled'',
                  FailingHosts = buildFailingHosts [alice, bob] ''https://fleet.example.com'' \<rparr>,
              CallRemoveHosts 7 [alice, bob]] @ [])"
proof -
  let ?env = "racing_env carol"
  let ?cfg = "example_config True [7]"
  have en: "Enable (FailingPoliciesWebhook (WebhookSettings ?cfg))"
    by (simp add: example_config_def)
  have ids: "PolicyIDs (FailingPoliciesWebhook (WebhookSettings ?cfg)) = [] @ 7 # []"
    by (simp add: example_config_def)
  have url: "DestinationURL (FailingPoliciesWebhook (WebhookSettings ?cfg))
               = ''https://hooks.example.com/failing''"
    "ServerURL (ServerSettings ?cfg) = ''https://fleet.example.com''"
    by (simp_all add: example_config_def)
  have e7: "example_sets 7 = [alice, bob]"
    by (simp add: example_sets_def)
  have h1: "policies_loop ?env ?cfg 0 example_sets [] = (None, example_sets, [])"
    by simp
  have h2: "ds_Policy ?env example_sets 7 = (Inr ''Disk encryption enabled'', example_sets)"
    by (simp add: racing_env_def example_catalog_def)
  have h3: "ListHosts ?env example_sets 7 = (Inr [alice, bob], example_sets)"
    by (simp add: racing_env_def e7)
  have h4: "PostJSONWithTimeout ?env example_sets
              (DestinationURL (FailingPoliciesWebhook (WebhookSettings ?cfg)))
              \<lparr> Timestamp = 0, Policy = ''Disk encryption enabled'',
                FailingHosts = buildFailingHosts [alice, bob] (ServerURL (ServerSettings ?cfg)) \<rparr>
            = (None, example_sets(7 := [alice, bob, carol]))"
    by (simp add: racing_env_def e7)
  have rm: "RemoveHosts ?env (example_sets(7 := [alice, bob, carol])) 7 [alice, bob]
              = (None, example_sets(7 := [carol]))"
    by (simp add: racing_env_def spec_removeHosts_def alice_def bob_def carol_def)
  from removal_is_exactly_the_snapshot [OF en ids h1 h2 h3 h4, unfolded url rm]
  obtain r w' rest where
    eq: "TriggerFailingPoliciesWebhook ?env ?cfg 0 example_sets =
           (r, w',
            [] @ [CallPolicy 7, CallListHosts 7,
                  CallPostJSON ''https://hooks.example.com/failing''
                    \<lparr> Timestamp = 0, Policy = ''Disk encryption enabled'',
                      FailingHosts = buildFailingHosts [alice, bob] ''https://fleet.example.com'' \<rparr>,
                  CallRemoveHosts 7 [alice, bob]] @ rest)"
    and tail: "(r, w', rest) =
           (case (None, example_sets(7 := [carol])) of
              (Some err, w4) \<Rightarrow>
                (Some (Wrapf err ''removing hosts %+v from failing policies set %d''
                         [ArgHosts [alice, bob], ArgUint 7]), w4, [])
            | (None, w4) \<Rightarrow> policies_loop ?env ?cfg 0 w4 [])"
    by (elim exE conjE)
  from tail have "r = None" "w' = example_sets(7 := [carol])" "rest = []"
    by simp_all
  with eq have whole:
    "TriggerFailingPoliciesWebhook ?env ?cfg 0 example_sets =
       (None, example_sets(7 := [carol]),
        [] @ [CallPolicy 7, CallListHosts 7,
              CallPostJSON ''https://hooks.example.com/failing''
                \<lparr> Timestamp = 0, Policy = ''Disk encryption enabled'',
                  FailingHosts = buildFailingHosts [alice, bob] ''https://fleet.example.com'' \<rparr>,
              CallRemoveHosts 7 [alice, bob]] @ [])"
    by (simp only:)
  from en ids h1 h2 h3 h4 [unfolded url] whole show ?thesis by (intro conjI)
qed

text \<open>The loop alone, on an identifier at any position of its list.\<close>

lemma loop_delivers_empty_snapshot:
  assumes "policies_loop env appConfig now w xs = (None, w0, calls0)"
    and "ds_Policy env w0 policyID = (Inr policy, w1)"
    and "ListHosts env w1 policyID = (Inr [], w2)"
  shows "\<exists>r w' rest.
           policies_loop env appConfig now w (xs @ policyID # ys) =
             (r, w',
              calls0 @ [CallPolicy policyID, CallListHosts policyID,
                        CallPostJSON
                          (DestinationURL (FailingPoliciesWebhook (WebhookSettings appConfig)))
                          \<lparr> Timestamp = now, Policy = policy, FailingHosts = [] \<rparr>] @ rest)
           \<and> (r, w', rest) =
               (case PostJSONWithTimeout env w2
                       (DestinationURL (FailingPoliciesWebhook (WebhookSettings appConfig)))
                       \<lparr> Timestamp = now, Policy = policy, FailingHosts = [] \<rparr> of
                  (Some err, w3) \<Rightarrow>
                    (Some (Wrapf err (''posting to '' @ [CHR 0x27] @ ''%s'' @ [CHR 0x27])
                             [ArgString (DestinationURL
                                (FailingPoliciesWebhook (WebhookSettings appConfig)))]), w3, [])
                | (None, w3) \<Rightarrow>
                    (case RemoveHosts env w3 policyID [] of
                       (Some err, w4) \<Rightarrow>
                         (Some (Wrapf err ''removing hosts %+v from failing policies set %d''
                                  [ArgHosts [], ArgUint policyID]),
                          w4, [CallRemoveHosts policyID []])
                     | (None, w4) \<Rightarrow>
                         (case policies_loop env appConfig now w4 ys of
                            (r, w', calls) \<Rightarrow> (r, w', CallRemoveHosts policyID [] # calls))))"
proof -
  let ?url = "DestinationURL (FailingPoliciesWebhook (WebhookSettings appConfig))"
  let ?payload = "\<lparr> Timestamp = now, Policy = policy, FailingHosts = [] \<rparr>"
  obtain pres w3 where post: "PostJSONWithTimeout env w2 ?url ?payload = (pres, w3)"
    by (cases "PostJSONWithTimeout env w2 ?url ?payload") auto
  obtain rres w4 where remove: "RemoveHosts env w3 policyID [] = (rres, w4)"
    by (cases "RemoveHosts env w3 policyID []") auto
  obtain r w' calls where tail: "policies_loop env appConfig now w4 ys = (r, w', calls)"
    by (cases "policies_loop env appConfig now w4 ys") auto
  show ?thesis
  proof (cases pres)
    case (Some err)
    with assms(2,3) post show ?thesis
      by (simp add: policies_loop_after_prefix [OF assms(1)] Let_def buildFailingHosts_Nil)
  next
    case None
    show ?thesis
    proof (cases rres)
      case (Some err)
      with assms(2,3) post remove \<open>pres = None\<close> show ?thesis
        by (simp add: policies_loop_after_prefix [OF assms(1)] Let_def buildFailingHosts_Nil)
    next
      case None
      with assms(2,3) post remove tail \<open>pres = None\<close> show ?thesis
        by (simp add: policies_loop_after_prefix [OF assms(1)] Let_def buildFailingHosts_Nil)
    qed
  qed
qed

text \<open>
  C1, as the code has it, for a run of the enabled cycle and any position of the
  configured list reached without a fatal error. The loop has no test for an empty
  snapshot. When
  \<^verbatim>\<open>ListHosts\<close> returns no host for a policy, the cycle still posts a payload, with an
  empty host list; when that delivery succeeds it calls \<^verbatim>\<open>RemoveHosts\<close> with the
  empty list, and when that succeeds too it goes on with the next identifier. It
  returns an error for this policy only when the delivery or the removal fails.
\<close>

theorem empty_snapshot_is_still_delivered:
  assumes "Enable (FailingPoliciesWebhook (WebhookSettings appConfig))"
    and "PolicyIDs (FailingPoliciesWebhook (WebhookSettings appConfig)) = xs @ policyID # ys"
    and "policies_loop env appConfig now w xs = (None, w0, calls0)"
    and "ds_Policy env w0 policyID = (Inr policy, w1)"
    and "ListHosts env w1 policyID = (Inr [], w2)"
  shows "\<exists>r w' rest.
           TriggerFailingPoliciesWebhook env appConfig now w =
             (r, w',
              calls0 @ [CallPolicy policyID, CallListHosts policyID,
                        CallPostJSON
                          (DestinationURL (FailingPoliciesWebhook (WebhookSettings appConfig)))
                          \<lparr> Timestamp = now, Policy = policy, FailingHosts = [] \<rparr>] @ rest)
           \<and> (r, w', rest) =
               (case PostJSONWithTimeout env w2
                       (DestinationURL (FailingPoliciesWebhook (WebhookSettings appConfig)))
                       \<lparr> Timestamp = now, Policy = policy, FailingHosts = [] \<rparr> of
                  (Some err, w3) \<Rightarrow>
                    (Some (Wrapf err (''posting to '' @ [CHR 0x27] @ ''%s'' @ [CHR 0x27])
                             [ArgString (DestinationURL
                                (FailingPoliciesWebhook (WebhookSettings appConfig)))]), w3, [])
                | (None, w3) \<Rightarrow>
                    (case RemoveHosts env w3 policyID [] of
                       (Some err, w4) \<Rightarrow>
                         (Some (Wrapf err ''removing hosts %+v from failing policies set %d''
                                  [ArgHosts [], ArgUint policyID]),
                          w4, [CallRemoveHosts policyID []])
                     | (None, w4) \<Rightarrow>
                         (case policies_loop env appConfig now w4 ys of
                            (r, w', calls) \<Rightarrow> (r, w', CallRemoveHosts policyID [] # calls))))"
proof -
  have run: "TriggerFailingPoliciesWebhook env appConfig now w
               = policies_loop env appConfig now w (xs @ policyID # ys)"
    using assms(1,2) by (simp add: TriggerFailingPoliciesWebhook_def)
  show ?thesis
    unfolding run by (rule loop_delivers_empty_snapshot [OF assms(3-5)])
qed

theorem empty_snapshot_is_still_delivered_witness:
  "Enable (FailingPoliciesWebhook (WebhookSettings (example_config True [9, 8])))
   \<and> PolicyIDs (FailingPoliciesWebhook (WebhookSettings (example_config True [9, 8])))
     = [9] @ 8 # []
   \<and> policies_loop (scripted_env example_catalog example_hostsets None None)
     (example_config True [9, 8]) (0::nat) () [9]
     = (None, (), [CallPolicy 9])
   \<and> ds_Policy (scripted_env example_catalog example_hostsets None None
                  :: (unit, nat, string) collaborators) () 8
     = (Inr ''Firewall enabled'', ())
   \<and> ListHosts (scripted_env example_catalog example_hostsets None None
                  :: (unit, nat, string) collaborators) () 8
     = (Inr [], ())
   \<and> TriggerFailingPoliciesWebhook (scripted_env example_catalog example_hostsets None None)
       (example_config True [9, 8]) (0::nat) ()
     = (None, (),
        [CallPolicy 9]
          @ [CallPolicy 8, CallListHosts 8,
             CallPostJSON ''https://hooks.example.com/failing''
               \<lparr> Timestamp = 0, Policy = ''Firewall enabled'', FailingHosts = [] \<rparr>]
          @ [CallRemoveHosts 8 []])"
proof -
  let ?env = "scripted_env example_catalog example_hostsets None None
                :: (unit, nat, string) collaborators"
  let ?cfg = "example_config True [9, 8]"
  let ?payload = "\<lparr> Timestamp = 0::nat, Policy = ''Firewall enabled'', FailingHosts = [] \<rparr>"
  have en: "Enable (FailingPoliciesWebhook (WebhookSettings ?cfg))"
    by (simp add: example_config_def)
  have ids: "PolicyIDs (FailingPoliciesWebhook (WebhookSettings ?cfg)) = [9] @ 8 # []"
    by (simp add: example_config_def)
  have url: "DestinationURL (FailingPoliciesWebhook (WebhookSettings ?cfg))
               = ''https://hooks.example.com/failing''"
    by (simp add: example_config_def)
  have h1: "policies_loop ?env ?cfg 0 () [9] = (None, (), [CallPolicy 9])"
    by (simp add: scripted_env_def example_catalog_def)
  have h2: "ds_Policy ?env () 8 = (Inr ''Firewall enabled'', ())"
    by (simp add: scripted_env_def example_catalog_def)
  have h3: "ListHosts ?env () 8 = (Inr [], ())"
    by (simp add: scripted_env_def example_hostsets_def example_sets_def)
  have post: "PostJSONWithTimeout ?env () ''https://hooks.example.com/failing'' ?payload
                = (None, ())"
    by (simp add: scripted_env_def)
  have remove: "RemoveHosts ?env () 8 [] = (None, ())"
    by (simp add: scripted_env_def)
  from empty_snapshot_is_still_delivered [OF en ids h1 h2 h3, unfolded url post]
  obtain r w' rest where
    eq: "TriggerFailingPoliciesWebhook ?env ?cfg 0 () =
           (r, w',
            [CallPolicy 9]
              @ [CallPolicy 8, CallListHosts 8,
                 CallPostJSON ''https://hooks.example.com/failing'' ?payload] @ rest)"
    and res: "(r, w', rest) =
           (case (None, ()) of
              (Some err, w3) \<Rightarrow>
                (Some (Wrapf err (''posting to '' @ [CHR 0x27] @ ''%s'' @ [CHR 0x27])
                         [ArgString ''https://hooks.example.com/failing'']), w3, [])
            | (None, w3) \<Rightarrow>
                (case RemoveHosts ?env w3 8 [] of
                   (Some err, w4) \<Rightarrow>
                     (Some (Wrapf err ''removing hosts %+v from failing policies set %d''
                              [ArgHosts [], ArgUint 8]),
                      w4, [CallRemoveHosts 8 []])
                 | (None, w4) \<Rightarrow>
                     (case policies_loop ?env ?cfg 0 w4 [] of
                        (r, w', calls) \<Rightarrow> (r, w', CallRemoveHosts 8 [] # calls))))"
    by (elim exE conjE)
  from res have "r = None" "w' = ()" "rest = [CallRemoveHosts 8 []]"
    by (simp_all add: remove)
  with eq have whole:
    "TriggerFailingPoliciesWebhook ?env ?cfg 0 () =
       (None, (),
        [CallPolicy 9]
          @ [CallPolicy 8, CallListHosts 8,
             CallPostJSON ''https://hooks.example.com/failing'' ?payload]
          @ [CallRemoveHosts 8 []])"
    by (simp only:)
  from en ids h1 h2 h3 whole show ?thesis by (intro conjI)
qed

text \<open>
  The claim C1 as it was stated fails on the scenario: policy 8 has no failing host, and
  the run over it posts a payload and calls the removal.
\<close>

theorem empty_snapshot_skipped_counterexample:
  "ListHosts (store_env example_catalog always_delivered) example_sets 8 = (Inr [], example_sets)
   \<and> TriggerFailingPoliciesWebhook (store_env example_catalog always_delivered)
       (example_config True [8]) 0 example_sets
     = (None, example_sets,
        [CallPolicy 8, CallListHosts 8,
         CallPostJSON ''https://hooks.example.com/failing''
           \<lparr> Timestamp = 0, Policy = ''Firewall enabled'', FailingHosts = [] \<rparr>,
         CallRemoveHosts 8 []])
   \<and> delivery_attempts
       (snd (snd (TriggerFailingPoliciesWebhook (store_env example_catalog always_delivered)
                    (example_config True [8]) 0 example_sets)))
     \<noteq> []"
proof -
  have e8: "example_sets 8 = []"
    by (simp add: example_sets_def)
  have sets: "example_sets(8 := []) = example_sets"
    by (rule ext) (simp add: example_sets_def)
  have run: "TriggerFailingPoliciesWebhook (store_env example_catalog always_delivered)
       (example_config True [8]) 0 example_sets
     = (None, example_sets,
        [CallPolicy 8, CallListHosts 8,
         CallPostJSON ''https://hooks.example.com/failing''
           \<lparr> Timestamp = 0, Policy = ''Firewall enabled'', FailingHosts = [] \<rparr>,
         CallRemoveHosts 8 []])"
    by (simp add: TriggerFailingPoliciesWebhook_def store_env_def example_catalog_def
        always_delivered_def example_config_def buildFailingHosts_Nil spec_removeHosts_def e8 sets)
  have "ListHosts (store_env example_catalog always_delivered) example_sets 8
          = (Inr [], example_sets)"
    by (simp add: store_env_def e8)
  then show ?thesis
    by (simp add: run)
qed

section \<open>The order and the number of delivery attempts\<close>

lemma subseq_count_list_le: "subseq xs ys \<Longrightarrow> count_list xs a \<le> count_list ys a"
  by (induction rule: list_emb.induct) auto

lemma delivery_order_from_loop:
  "subseq (delivery_order_from cur (snd (snd (policies_loop env appConfig now w ids)))) ids"
proof (induction ids arbitrary: w cur)
  case Nil
  show ?case by simp
next
  case (Cons policyID rest)
  have IH: "subseq (delivery_order_from [policyID] calls) rest"
    if "policies_loop env appConfig now w' rest = (r, w'', calls)" for w' r w'' calls
    using Cons.IH [of "[policyID]" w'] that by simp
  show ?case
    by (auto simp: Let_def split: prod.splits sum.splits option.splits dest: IH)
qed

lemma delivery_order_from_length:
  "length (delivery_order_from [p] (snd (snd (policies_loop env appConfig now w ids))))
     = length (delivery_attempts (snd (snd (policies_loop env appConfig now w ids))))"
proof (induction ids arbitrary: w p)
  case Nil
  show ?case by simp
next
  case (Cons policyID rest)
  have IH: "length (delivery_order_from [policyID] calls) = length (delivery_attempts calls)"
    if "policies_loop env appConfig now w' rest = (r, w'', calls)" for w' r w'' calls
    using Cons.IH [of policyID w'] that by simp
  show ?case
    by (auto simp: Let_def split: prod.splits sum.splits option.splits dest: IH)
qed

lemma delivery_order_length:
  "length (delivery_order (snd (snd (policies_loop env appConfig now w ids))))
     = length (delivery_attempts (snd (snd (policies_loop env appConfig now w ids))))"
proof (cases ids)
  case Nil
  then show ?thesis by (simp add: delivery_order_def)
next
  case (Cons policyID rest)
  have tail: "length (delivery_order_from [policyID] calls) = length (delivery_attempts calls)"
    if "policies_loop env appConfig now w' rest = (r, w'', calls)" for w' r w'' calls
    using delivery_order_from_length [of policyID env appConfig now w' rest] that by simp
  show ?thesis
    unfolding Cons delivery_order_def
    by (auto simp: Let_def split: prod.splits sum.splits option.splits dest: tail)
qed

text \<open>
  C8, as the code has it. Every delivery attempt of a run belongs to one entry of the
  configured list, and the attempts come in the order of the list: the identifiers they
  are made for are a subsequence of the list. So a policy has at most as many attempts as
  the list has entries for it, one when the list names it once.
\<close>

theorem deliveries_follow_configured_list:
  "subseq (delivery_order (snd (snd (TriggerFailingPoliciesWebhook env appConfig now w))))
     (PolicyIDs (FailingPoliciesWebhook (WebhookSettings appConfig)))
   \<and> length (delivery_order (snd (snd (TriggerFailingPoliciesWebhook env appConfig now w))))
     = length (delivery_attempts (snd (snd (TriggerFailingPoliciesWebhook env appConfig now w))))
   \<and> count_list (delivery_order (snd (snd (TriggerFailingPoliciesWebhook env appConfig now w))))
       policyID
     \<le> count_list (PolicyIDs (FailingPoliciesWebhook (WebhookSettings appConfig))) policyID"
proof -
  let ?ids = "PolicyIDs (FailingPoliciesWebhook (WebhookSettings appConfig))"
  let ?calls = "snd (snd (TriggerFailingPoliciesWebhook env appConfig now w))"
  have sub: "subseq (delivery_order ?calls) ?ids"
    by (simp add: TriggerFailingPoliciesWebhook_def delivery_order_def delivery_order_from_loop)
  have len: "length (delivery_order ?calls) = length (delivery_attempts ?calls)"
    using delivery_order_length [of env appConfig now w ?ids]
    by (simp add: TriggerFailingPoliciesWebhook_def delivery_order_def)
  from sub len subseq_count_list_le [OF sub] show ?thesis
    by (intro conjI)
qed

text \<open>
  The claim C8 as it was stated fails when the configured list names a policy twice:
  the run makes two delivery attempts for policy 7.
\<close>

theorem one_delivery_per_policy_counterexample:
  "TriggerFailingPoliciesWebhook (store_env example_catalog always_delivered)
     (example_config True [7, 7]) 0 example_sets
     = (None, example_sets(7 := []),
        [CallPolicy 7, CallListHosts 7,
         CallPostJSON ''https://hooks.example.com/failing''
           \<lparr> Timestamp = 0, Policy = ''Disk encryption enabled'',
             FailingHosts = buildFailingHosts [alice, bob] ''https://fleet.example.com'' \<rparr>,
         CallRemoveHosts 7 [alice, bob],
         CallPolicy 7, CallListHosts 7,
         CallPostJSON ''https://hooks.example.com/failing''
           \<lparr> Timestamp = 0, Policy = ''Disk encryption enabled'', FailingHosts = [] \<rparr>,
         CallRemoveHosts 7 []])
   \<and> \<not> count_list
         (delivery_order
            (snd (snd (TriggerFailingPoliciesWebhook (store_env example_catalog always_delivered)
                         (example_config True [7, 7]) 0 example_sets)))) 7
       \<le> 1"
proof -
  have e7: "example_sets 7 = [alice, bob]"
    by (simp add: example_sets_def)
  have run: "TriggerFailingPoliciesWebhook (store_env example_catalog always_delivered)
     (example_config True [7, 7]) 0 example_sets
     = (None, example_sets(7 := []),
        [CallPolicy 7, CallListHosts 7,
         CallPostJSON ''https://hooks.example.com/failing''
           \<lparr> Timestamp = 0, Policy = ''Disk encryption enabled'',
             FailingHosts = buildFailingHosts [alice, bob] ''https://fleet.example.com'' \<rparr>,
         CallRemoveHosts 7 [alice, bob],
         CallPolicy 7, CallListHosts 7,
         CallPostJSON ''https://hooks.example.com/failing''
           \<lparr> Timestamp = 0, Policy = ''Disk encryption enabled'', FailingHosts = [] \<rparr>,
         CallRemoveHosts 7 []])"
    by (simp add: TriggerFailingPoliciesWebhook_def store_env_def example_catalog_def
        always_delivered_def example_config_def buildFailingHosts_Nil spec_removeHosts_def e7)
  show ?thesis
    by (simp add: run delivery_order_def)
qed

section \<open>Two runs in a row\<close>

lemma spec_removeHosts_self: "spec_removeHosts hosts hosts = []"
  by (simp add: spec_removeHosts_def filter_empty_conv)

lemma spec_removeHosts_Nil: "spec_removeHosts [] hosts = []"
  by (simp add: spec_removeHosts_def)

lemma store_loop_keeps_empty:
  "policies_loop (store_env catalog post) appConfig now s ids = (r, s', calls)
     \<Longrightarrow> s policyID = [] \<Longrightarrow> s' policyID = []"
proof (induction ids arbitrary: s r s' calls)
  case Nil
  then show ?case by simp
next
  case (Cons p rest)
  show ?case
  proof (cases "catalog p")
    case (Inl err)
    with Cons.prems Cons.IH show ?thesis
      by (auto simp: store_env_def split: if_splits prod.splits)
  next
    case (Inr policy)
    let ?s1 = "s(p := spec_removeHosts (s p) (s p))"
    have s1: "?s1 policyID = []"
      using Cons.prems(2) by (simp add: spec_removeHosts_self)
    let ?res = "post (DestinationURL (FailingPoliciesWebhook (WebhookSettings appConfig)))
                  \<lparr> Timestamp = now, Policy = policy,
                    FailingHosts = buildFailingHosts (s p) (ServerURL (ServerSettings appConfig)) \<rparr>"
    show ?thesis
    proof (cases ?res)
      case (Some err)
      with Cons.prems Inr show ?thesis
        by (auto simp: store_env_def Let_def)
    next
      case None
      with Cons.prems(1) Inr obtain calls' where
        tail: "policies_loop (store_env catalog post) appConfig now ?s1 rest = (r, s', calls')"
        by (auto simp: store_env_def Let_def split: prod.splits)
      from Cons.IH [OF tail s1] show ?thesis .
    qed
  qed
qed

lemma store_loop_drains:
  "policies_loop (store_env catalog post) appConfig now s ids = (None, s', calls)
     \<Longrightarrow> policyID \<in> set ids \<Longrightarrow> catalog policyID = Inr policy \<Longrightarrow> s' policyID = []"
proof (induction ids arbitrary: s s' calls)
  case Nil
  then show ?case by simp
next
  case (Cons p rest)
  show ?case
  proof (cases "catalog p")
    case (Inl err)
    with Cons.prems have "policyID \<in> set rest"
      by auto
    with Inl Cons.prems Cons.IH show ?thesis
      by (auto simp: store_env_def split: if_splits prod.splits)
  next
    case (Inr pol)
    let ?s1 = "s(p := spec_removeHosts (s p) (s p))"
    from Cons.prems(1) Inr obtain calls' where
      post: "post (DestinationURL (FailingPoliciesWebhook (WebhookSettings appConfig)))
               \<lparr> Timestamp = now, Policy = pol,
                 FailingHosts = buildFailingHosts (s p) (ServerURL (ServerSettings appConfig)) \<rparr>
             = None"
      and tail: "policies_loop (store_env catalog post) appConfig now ?s1 rest = (None, s', calls')"
      by (auto simp: store_env_def Let_def split: option.splits prod.splits)
    show ?thesis
    proof (cases "policyID \<in> set rest")
      case True
      from Cons.IH [OF tail True Cons.prems(3)] show ?thesis .
    next
      case False
      with Cons.prems(2) have "policyID = p" by simp
      then have "?s1 policyID = []"
        by (simp add: spec_removeHosts_self)
      from store_loop_keeps_empty [OF tail this] show ?thesis .
    qed
  qed
qed

lemma store_loop_on_drained:
  assumes "\<And>policyID policy. policyID \<in> set ids \<Longrightarrow> catalog policyID = Inr policy
             \<Longrightarrow> s policyID = []"
  shows "fst (snd (policies_loop (store_env catalog post) appConfig now s ids)) = s
         \<and> list_all empty_handed (snd (snd (policies_loop (store_env catalog post) appConfig now s ids)))"
  using assms
proof (induction ids)
  case Nil
  show ?case by simp
next
  case (Cons p rest)
  have IH: "fst (snd (policies_loop (store_env catalog post) appConfig now s rest)) = s"
    "list_all empty_handed (snd (snd (policies_loop (store_env catalog post) appConfig now s rest)))"
    using Cons.IH Cons.prems by simp_all
  show ?case
  proof (cases "catalog p")
    case (Inl err)
    with IH show ?thesis
      by (auto simp: store_env_def split: prod.splits)
  next
    case (Inr policy)
    with Cons.prems [of p policy] have empty: "s p = []"
      by simp
    then have same: "s(p := []) = s"
      by (auto simp: fun_eq_iff)
    from Inr IH show ?thesis
      by (auto simp: store_env_def Let_def empty same buildFailingHosts_Nil spec_removeHosts_Nil
          split: option.splits prod.splits)
  qed
qed

lemma store_loop_attempts:
  "policies_loop (store_env catalog post) appConfig now s ids = (None, s', calls)
     \<Longrightarrow> length (delivery_attempts calls) = length (filter (\<lambda>p. \<not> isl (catalog p)) ids)"
proof (induction ids arbitrary: s s' calls)
  case Nil
  then show ?case by auto
next
  case (Cons p rest)
  show ?case
  proof (cases "catalog p")
    case (Inl err)
    with Cons.prems Cons.IH show ?thesis
      by (auto simp: store_env_def split: if_splits prod.splits)
  next
    case (Inr policy)
    with Cons.prems Cons.IH show ?thesis
      by (auto simp: store_env_def Let_def split: option.splits prod.splits)
  qed
qed

lemma example_first_run:
  "TriggerFailingPoliciesWebhook (store_env example_catalog always_delivered)
     (example_config True [7]) 0 example_sets
     = (None, example_sets(7 := []),
        [CallPolicy 7, CallListHosts 7,
         CallPostJSON ''https://hooks.example.com/failing''
           \<lparr> Timestamp = 0, Policy = ''Disk encryption enabled'',
             FailingHosts = buildFailingHosts [alice, bob] ''https://fleet.example.com'' \<rparr>,
         CallRemoveHosts 7 [alice, bob]])"
proof -
  have e7: "example_sets 7 = [alice, bob]"
    by (simp add: example_sets_def)
  show ?thesis
    by (simp add: TriggerFailingPoliciesWebhook_def store_env_def example_catalog_def
        always_delivered_def example_config_def spec_removeHosts_def e7)
qed

lemma example_second_run:
  "TriggerFailingPoliciesWebhook (store_env example_catalog always_delivered)
     (example_config True [7]) 60 (example_sets(7 := []))
     = (None, example_sets(7 := []),
        [CallPolicy 7, CallListHosts 7,
         CallPostJSON ''https://hooks.example.com/failing''
           \<lparr> Timestamp = 60, Policy = ''Disk encryption enabled'', FailingHosts = [] \<rparr>,
         CallRemoveHosts 7 []])"
  by (simp add: TriggerFailingPoliciesWebhook_def store_env_def example_catalog_def
      always_delivered_def example_config_def buildFailingHosts_Nil spec_removeHosts_def)

text \<open>
  C7, as the code has it, for a failing-policy set that follows section 4.1 of the
  specification and that nothing else writes to. After a run that succeeded, a second
  run leaves every set as it found it, and each of its calls carries no host: every
  snapshot it takes is empty, so every payload it posts has an empty host list and every
  removal removes nothing. It is not silent: it posts those payloads, and when it
  succeeds too it makes as many delivery attempts as the first run made.
\<close>

theorem second_run_carries_no_host:
  assumes "TriggerFailingPoliciesWebhook (store_env catalog post1) appConfig now1 s
             = (None, s1, calls1)"
  shows "fst (snd (TriggerFailingPoliciesWebhook (store_env catalog post2) appConfig now2 s1)) = s1
       \<and> list_all empty_handed
           (snd (snd (TriggerFailingPoliciesWebhook (store_env catalog post2) appConfig now2 s1)))
       \<and> (fst (TriggerFailingPoliciesWebhook (store_env catalog post2) appConfig now2 s1) = None
            \<longrightarrow> length (delivery_attempts
                   (snd (snd (TriggerFailingPoliciesWebhook (store_env catalog post2)
                                appConfig now2 s1))))
                = length (delivery_attempts calls1))"
proof (cases "Enable (FailingPoliciesWebhook (WebhookSettings appConfig))")
  case False
  with assms show ?thesis
    by (simp add: TriggerFailingPoliciesWebhook_def)
next
  case True
  let ?ids = "PolicyIDs (FailingPoliciesWebhook (WebhookSettings appConfig))"
  let ?run2 = "policies_loop (store_env catalog post2) appConfig now2 s1 ?ids"
  from assms True have first:
    "policies_loop (store_env catalog post1) appConfig now1 s ?ids = (None, s1, calls1)"
    by (simp add: TriggerFailingPoliciesWebhook_def)
  have drained: "s1 policyID = []"
    if "policyID \<in> set ?ids" "catalog policyID = Inr policy" for policyID policy
    using store_loop_drains [OF first that] .
  from store_loop_on_drained [of ?ids catalog s1 post2 appConfig now2] drained
  have quiet: "fst (snd ?run2) = s1" "list_all empty_handed (snd (snd ?run2))"
    by blast+
  have count: "length (delivery_attempts (snd (snd ?run2))) = length (delivery_attempts calls1)"
    if "fst ?run2 = None"
  proof -
    from that have "?run2 = (None, fst (snd ?run2), snd (snd ?run2))"
      by (cases ?run2) simp
    from store_loop_attempts [OF this] store_loop_attempts [OF first] show ?thesis
      by simp
  qed
  from True quiet count show ?thesis
    by (simp add: TriggerFailingPoliciesWebhook_def)
qed

theorem second_run_carries_no_host_witness:
  "TriggerFailingPoliciesWebhook (store_env example_catalog always_delivered)
     (example_config True [7]) 0 example_sets
     = (None, example_sets(7 := []),
        [CallPolicy 7, CallListHosts 7,
         CallPostJSON ''https://hooks.example.com/failing''
           \<lparr> Timestamp = 0, Policy = ''Disk encryption enabled'',
             FailingHosts = buildFailingHosts [alice, bob] ''https://fleet.example.com'' \<rparr>,
         CallRemoveHosts 7 [alice, bob]])
   \<and> fst (snd (TriggerFailingPoliciesWebhook (store_env example_catalog always_delivered)
                 (example_config True [7]) 60 (example_sets(7 := []))))
     = example_sets(7 := [])
   \<and> list_all empty_handed
       (snd (snd (TriggerFailingPoliciesWebhook (store_env example_catalog always_delivered)
                    (example_config True [7]) 60 (example_sets(7 := [])))))
   \<and> fst (TriggerFailingPoliciesWebhook (store_env example_catalog always_delivered)
            (example_config True [7]) 60 (example_sets(7 := []))) = None
   \<and> length (delivery_attempts
       (snd (snd (TriggerFailingPoliciesWebhook (store_env example_catalog always_delivered)
                    (example_config True [7]) 60 (example_sets(7 := []))))))
     = length (delivery_attempts
         [CallPolicy 7, CallListHosts 7,
          CallPostJSON ''https://hooks.example.com/failing''
            \<lparr> Timestamp = 0::nat, Policy = ''Disk encryption enabled'',
              FailingHosts = buildFailingHosts [alice, bob] ''https://fleet.example.com'' \<rparr>,
          CallRemoveHosts 7 [alice, bob]])"
proof -
  note t = second_run_carries_no_host [OF example_first_run, of always_delivered 60]
  have ok: "fst (TriggerFailingPoliciesWebhook (store_env example_catalog always_delivered)
            (example_config True [7]) 60 (example_sets(7 := []))) = None"
    by (simp only: example_second_run fst_conv)
  from example_first_run t [THEN conjunct1] t [THEN conjunct2, THEN conjunct1] ok
    t [THEN conjunct2, THEN conjunct2, THEN mp, OF ok]
  show ?thesis by (intro conjI)
qed

text \<open>
  The claim C7 as it was stated fails on the scenario: two runs in a row over policy 7,
  the first one successful, make two delivery attempts, not one; the second run posts a
  payload without hosts.
\<close>

theorem two_runs_one_delivery_counterexample:
  "fst (TriggerFailingPoliciesWebhook (store_env example_catalog always_delivered)
          (example_config True [7]) 0 example_sets) = None
   \<and> fst (snd (TriggerFailingPoliciesWebhook (store_env example_catalog always_delivered)
                 (example_config True [7]) 0 example_sets)) = example_sets(7 := [])
   \<and> delivery_attempts
       (snd (snd (TriggerFailingPoliciesWebhook (store_env example_catalog always_delivered)
                    (example_config True [7]) 60 (example_sets(7 := [])))))
     = [\<lparr> Timestamp = 60, Policy = ''Disk encryption enabled'', FailingHosts = [] \<rparr>]
   \<and> length
       (delivery_attempts
          (snd (snd (TriggerFailingPoliciesWebhook (store_env example_catalog always_delivered)
                       (example_config True [7]) 0 example_sets)))
        @ delivery_attempts
            (snd (snd (TriggerFailingPoliciesWebhook (store_env example_catalog always_delivered)
                         (example_config True [7]) 60 (example_sets(7 := []))))))
     \<noteq> 1"
  by (simp add: example_first_run example_second_run)

section \<open>The wire shape of a delivery\<close>

lemma loop_payload_timestamps:
  "list_all (\<lambda>payload. Timestamp payload = now)
     (delivery_attempts (snd (snd (policies_loop env appConfig now w ids))))"
proof (induction ids arbitrary: w)
  case Nil
  show ?case by simp
next
  case (Cons policyID rest)
  have IH: "list_all (\<lambda>payload. Timestamp payload = now) (delivery_attempts calls)"
    if "policies_loop env appConfig now w' rest = (r, w'', calls)" for w' r w'' calls
    using Cons.IH [of w'] that by simp
  show ?case
    by (auto simp: Let_def split: prod.splits sum.splits option.splits dest: IH)
qed

text \<open>
  C9. A payload is written as an object with exactly the members \<^verbatim>\<open>timestamp\<close>,
  \<^verbatim>\<open>policy\<close> and \<^verbatim>\<open>hosts\<close>, holding the encoded timestamp, the encoded policy
  record and the array of the encoded hosts in the order of the payload; each host is an
  object with exactly the members \<^verbatim>\<open>id\<close>, \<^verbatim>\<open>hostname\<close> and \<^verbatim>\<open>url\<close>. The
  timestamp of every payload a run posts is the time the run was invoked with.
\<close>

theorem payload_wire_shape:
  "object_keys (marshal_FailingPoliciesPayload marshal_time marshal_policy payload)
     = [''timestamp'', ''policy'', ''hosts'']
   \<and> object_member (marshal_FailingPoliciesPayload marshal_time marshal_policy payload)
       ''timestamp'' = Some (marshal_time (Timestamp payload))
   \<and> object_member (marshal_FailingPoliciesPayload marshal_time marshal_policy payload)
       ''policy'' = Some (marshal_policy (Policy payload))
   \<and> object_member (marshal_FailingPoliciesPayload marshal_time marshal_policy payload)
       ''hosts'' = Some (JArray (map marshal_FailingHost (FailingHosts payload)))
   \<and> map object_keys (map marshal_FailingHost (FailingHosts payload))
     = replicate (length (FailingHosts payload)) [''id'', ''hostname'', ''url'']
   \<and> map (\<lambda>j. [object_member j ''id'', object_member j ''hostname'', object_member j ''url''])
       (map marshal_FailingHost (FailingHosts payload))
     = map (\<lambda>h. [Some (JNumber (uint (fh_ID h))), Some (JString (fh_Hostname h)),
                   Some (JString (fh_URL h))])
         (FailingHosts payload)
   \<and> list_all (\<lambda>posted. Timestamp posted = now)
       (delivery_attempts (snd (snd (TriggerFailingPoliciesWebhook env appConfig now w))))"
proof -
  have keys: "object_keys (marshal_FailingPoliciesPayload marshal_time marshal_policy payload)
     = [''timestamp'', ''policy'', ''hosts'']"
    by (simp add: marshal_FailingPoliciesPayload_def)
  have members:
    "object_member (marshal_FailingPoliciesPayload marshal_time marshal_policy payload)
       ''timestamp'' = Some (marshal_time (Timestamp payload))"
    "object_member (marshal_FailingPoliciesPayload marshal_time marshal_policy payload)
       ''policy'' = Some (marshal_policy (Policy payload))"
    "object_member (marshal_FailingPoliciesPayload marshal_time marshal_policy payload)
       ''hosts'' = Some (JArray (map marshal_FailingHost (FailingHosts payload)))"
    by (simp_all add: marshal_FailingPoliciesPayload_def)
  have host_keys: "map object_keys (map marshal_FailingHost (FailingHosts payload))
     = replicate (length (FailingHosts payload)) [''id'', ''hostname'', ''url'']"
    by (simp add: marshal_FailingHost_def comp_def map_replicate_const)
  have host_members:
    "map (\<lambda>j. [object_member j ''id'', object_member j ''hostname'', object_member j ''url''])
       (map marshal_FailingHost (FailingHosts payload))
     = map (\<lambda>h. [Some (JNumber (uint (fh_ID h))), Some (JString (fh_Hostname h)),
                   Some (JString (fh_URL h))])
         (FailingHosts payload)"
    by (simp add: marshal_FailingHost_def comp_def)
  have stamps: "list_all (\<lambda>posted. Timestamp posted = now)
       (delivery_attempts (snd (snd (TriggerFailingPoliciesWebhook env appConfig now w))))"
    by (simp add: TriggerFailingPoliciesWebhook_def loop_payload_timestamps)
  from keys members host_keys host_members stamps show ?thesis
    by (intro conjI)
qed

end
